theory Spec2Isabelle
  imports Complex_Main "HOL-Library.Sublist"
begin

section \<open>JavaScript values\<close>

text \<open>
  The client is dynamically typed, so its arguments are modelled by one type of
  JavaScript values. A string is a list of code units below 256. A number is
  \<open>NaN\<close>, an infinity (\<open>Infinity True\<close> is the positive one), the negative
  zero, or a finite number given by its exact value: an integer (\<open>Integer 0\<close> is the
  positive zero) or a fraction that is not an integer. The finite numbers of JavaScript
  are the rationals that the binary64 format holds (\<open>is_double\<close> below). An object is
  the list of its own enumerable properties in the order \<open>Object.keys\<close> enumerates
  them. Host objects have no own enumerable property; they carry their payload.
\<close>

datatype jsnum = NaN | Infinity bool | Integer int | NegZero | Fraction rat

datatype host =
    FormData "(string \<times> string) list"
  | ArrayBuffer string
  | ReadableStream string
  | Headers "(string \<times> string) list"

datatype jsval =
    JUndefined
  | JNull
  | JBool bool
  | JNum jsnum
  | JStr string
  | JArr "jsval list"
  | JObj "(string \<times> jsval) list"
  | JHost host

type_synonym obj = "(string \<times> jsval) list"

text \<open>The instance state of \<open>HTTPError\<close>: the message given to \<open>super\<close>, and the
  private fields \<open>#code\<close> and \<open>#response\<close>.\<close>

record HTTPError =
  message :: string
  code :: jsnum
  response :: jsval

text \<open>What a call can throw (an \<open>async\<close> function: reject with). \<open>Unsupported\<close>
  marks an input on which the model of a platform function says nothing; \<open>OutOfFuel\<close>
  is a recursion bound of the model that ran out.\<close>

datatype error =
    TypeError
  | SyntaxError
  | Error string
  | Thrown HTTPError
  | Unsupported
  | OutOfFuel

text \<open>The condition of \<open>if (x)\<close>, \<open>!x\<close>, \<open>x || y\<close> and \<open>x ? y : z\<close>.\<close>

fun truthy :: "jsval \<Rightarrow> bool" where
  "truthy JUndefined = False"
| "truthy JNull = False"
| "truthy (JBool b) = b"
| "truthy (JNum n) = (n \<noteq> NaN \<and> n \<noteq> Integer 0 \<and> n \<noteq> NegZero)"
| "truthy (JStr s) = (s \<noteq> [])"
| "truthy (JArr xs) = True"
| "truthy (JObj kvs) = True"
| "truthy (JHost h) = True"

text \<open>\<open>x || y\<close> on values.\<close>

definition or_else :: "jsval \<Rightarrow> jsval \<Rightarrow> jsval" where
  "or_else x y = (if truthy x then x else y)"

text \<open>A parameter default (\<open>params = {}\<close>) replaces \<open>undefined\<close> only.\<close>

definition default_arg :: "jsval \<Rightarrow> jsval \<Rightarrow> jsval" where
  "default_arg d x = (if x = JUndefined then d else x)"

subsection \<open>Characters and decimal numerals\<close>

definition is_digit :: "char \<Rightarrow> bool" where
  "is_digit c = (48 \<le> (of_char c :: nat) \<and> (of_char c :: nat) \<le> 57)"

definition digit_val :: "char \<Rightarrow> nat" where
  "digit_val c = of_char c - 48"

definition nat_of_digits :: "string \<Rightarrow> nat" where
  "nat_of_digits s = foldl (\<lambda>a c. 10 * a + digit_val c) 0 s"

fun show_nat :: "nat \<Rightarrow> string" where
  "show_nat n =
     (if n < 10 then [char_of (48 + n)]
      else show_nat (n div 10) @ [char_of (48 + n mod 10)])"

declare show_nat.simps [simp del]

definition show_int :: "int \<Rightarrow> string" where
  "show_int i = (if i < 0 then CHR ''-'' # show_nat (nat (- i)) else show_nat (nat i))"

subsection \<open>Numbers\<close>

text \<open>A power with an integer exponent, and the number of digits of a positive integer
  in a base.\<close>

definition exp_int :: "rat \<Rightarrow> int \<Rightarrow> rat" where
  "exp_int b e = (if 0 \<le> e then b ^ nat e else 1 / b ^ nat (- e))"

function width :: "int \<Rightarrow> int \<Rightarrow> int" where
  "width b a = (if a \<le> 0 \<or> b < 2 then 0 else 1 + width b (a div b))"
  by pat_completeness auto
termination
  by (relation "measure (\<lambda>(b, a). nat a)") (auto intro!: int_div_less_self)

declare width.simps [simp del]

text \<open>The exponent \<open>e\<close> with \<open>b^e \<le> q < b^(e+1)\<close>, for a positive \<open>q\<close>.\<close>

definition floor_log :: "int \<Rightarrow> rat \<Rightarrow> int" where
  "floor_log b q = (if 1 \<le> q then width b \<lfloor>q\<rfloor> - 1 else - width b (\<lceil>1 / q\<rceil> - 1))"

text \<open>Rounding to the nearest integer, a tie going to the even one.\<close>

definition round_even :: "rat \<Rightarrow> int" where
  "round_even x =
     (let f = \<lfloor>x\<rfloor>; d = x - of_int f
      in if d < 1 / 2 then f else if 1 / 2 < d then f + 1 else if even f then f else f + 1)"

text \<open>The Number value for a positive rational: the nearest rational that binary64
  holds, which has 53 significant bits, or is a multiple of \<open>2^-1074\<close> when it is below
  \<open>2^-1022\<close>. A result that reaches \<open>2^1024\<close> is no finite number (\<open>None\<close>).\<close>

definition to_double :: "rat \<Rightarrow> rat option" where
  "to_double q =
     (let e = max (floor_log 2 q) (- 1022);
          u = exp_int 2 (e - 52);
          d = of_int (round_even (q / u)) * u
      in if 1024 \<le> floor_log 2 d then None else Some d)"

definition is_double :: "rat \<Rightarrow> bool" where
  "is_double q = (q = 0 \<or> to_double \<bar>q\<bar> = Some \<bar>q\<bar>)"

definition is_integer :: "rat \<Rightarrow> bool" where
  "is_integer q = (of_int \<lfloor>q\<rfloor> = q)"

text \<open>The Number value for a rational given by its sign and its magnitude: a magnitude
  that rounds to zero keeps the sign.\<close>

definition number_of :: "bool \<Rightarrow> rat \<Rightarrow> jsnum" where
  "number_of neg q =
     (case (if q = 0 then Some 0 else to_double q) of
        None \<Rightarrow> Infinity (\<not> neg)
      | Some d \<Rightarrow>
          if d = 0 then (if neg then NegZero else Integer 0)
          else if is_integer d then Integer (if neg then - \<lfloor>d\<rfloor> else \<lfloor>d\<rfloor>)
          else Fraction (if neg then - d else d))"

text \<open>\<open>Number::toString\<close> writes a positive Number \<open>d\<close> from the integers \<open>n\<close>,
  \<open>k\<close> and \<open>s\<close> such that \<open>s\<close> has \<open>k\<close> digits, the Number value for
  \<open>s * 10^(n-k)\<close> is \<open>d\<close>, and \<open>k\<close> is as small as possible; of several such
  \<open>s\<close> the one nearest to \<open>d\<close>, and of two equally near the even one. With \<open>k\<close>
  digits only the two neighbours of \<open>d\<close> can do. The search for \<open>k\<close> ends at the
  latest where all the digits of \<open>d\<close> are written.\<close>

definition candidate :: "rat \<Rightarrow> int \<Rightarrow> int \<Rightarrow> (int \<times> int) option" where
  "candidate d n k =
     (let u = exp_int 10 (n - k);
          lo = \<lfloor>d / u\<rfloor>;
          hi = lo + 1;
          okl = (to_double (of_int lo * u) = Some d);
          okh = (to_double (of_int hi * u) = Some d);
          nearer = (d - of_int lo * u < of_int hi * u - d
                    \<or> (d - of_int lo * u = of_int hi * u - d \<and> even lo))
      in if okl \<and> (nearer \<or> \<not> okh) then Some (lo, n)
         else if okh then (if hi = 10 ^ nat k then Some (10 ^ nat (k - 1), n + 1) else Some (hi, n))
         else None)"

fun first_candidate :: "rat \<Rightarrow> int \<Rightarrow> int \<Rightarrow> nat \<Rightarrow> (int \<times> int) option" where
  "first_candidate d n k 0 = None"
| "first_candidate d n k (Suc m) =
     (case candidate d n k of
        Some c \<Rightarrow> Some c
      | None \<Rightarrow> first_candidate d n (k + 1) m)"

definition exact_digits :: "rat \<Rightarrow> int" where
  "exact_digits d =
     width 10 \<lfloor>d * 10 ^ nat (max 0 (52 - max (floor_log 2 d) (- 1022)))\<rfloor>"

definition shortest :: "rat \<Rightarrow> (int \<times> int) option" where
  "shortest d = first_candidate d (floor_log 10 d + 1) 1 (nat (exact_digits d))"

text \<open>The text of a decimal numeral: the digits before the point, those after it if
  there are any, and the exponent if there is one.\<close>

definition numeral_text :: "string \<Rightarrow> string \<Rightarrow> int option \<Rightarrow> string" where
  "numeral_text ip fp ex =
     ip @ (if fp = [] then [] else CHR ''.'' # fp)
        @ (case ex of
             None \<Rightarrow> []
           | Some e \<Rightarrow> CHR ''e'' # (if e < 0 then CHR ''-'' else CHR ''+'') # show_nat (nat \<bar>e\<bar>))"

text \<open>The four layouts of \<open>Number::toString\<close>, for the digits \<open>s\<close> and the
  exponent \<open>n\<close>: an integer with the zeros that follow the digits, a numeral with the
  point within the digits, one that starts with \<open>0.\<close>, and the exponential notation.\<close>

definition number_text :: "int \<Rightarrow> int \<Rightarrow> string" where
  "number_text s n =
     (let ds = show_nat (nat s); k = int (length ds)
      in if k \<le> n \<and> n \<le> 21 then numeral_text (ds @ replicate (nat (n - k)) (CHR ''0'')) [] None
         else if 0 < n \<and> n \<le> 21 then numeral_text (take (nat n) ds) (drop (nat n) ds) None
         else if - 6 < n \<and> n \<le> 0 then numeral_text ''0'' (replicate (nat (- n)) (CHR ''0'') @ ds) None
         else numeral_text [hd ds] (tl ds) (Some (n - 1)))"

text \<open>\<open>Number::toString\<close> of the Number value for a rational. Zero, which has
  no digits to search for, is written \<open>0\<close>.\<close>

definition show_rat :: "rat \<Rightarrow> string" where
  "show_rat q =
     (case (if q = 0 then Some 0 else to_double \<bar>q\<bar>) of
        None \<Rightarrow> (if q < 0 then ''-Infinity'' else ''Infinity'')
      | Some d \<Rightarrow>
          (case shortest d of
             None \<Rightarrow> ''0''
           | Some (s, n) \<Rightarrow> (if q < 0 then ''-'' else []) @ number_text s n))"

subsection \<open>Lower case\<close>

text \<open>\<open>String.prototype.toLowerCase\<close> on code units below 256: the ASCII capitals and
  the Latin-1 capitals (0xC0 to 0xDE but the multiplication sign 0xD7) move up by 32.\<close>

definition toLowerChar :: "char \<Rightarrow> char" where
  "toLowerChar c =
     (let n = of_char c :: nat in
      if (65 \<le> n \<and> n \<le> 90) \<or> (192 \<le> n \<and> n \<le> 222 \<and> n \<noteq> 215)
      then char_of (n + 32) else c)"

definition toLowerCase :: "string \<Rightarrow> string" where
  "toLowerCase s = map toLowerChar s"

text \<open>The test \<open>x.match(/^[a-z0-9]/i)\<close> of \<open>getHeader\<close>: the first code unit is an
  ASCII letter or digit.\<close>

definition alnum_leading :: "string \<Rightarrow> bool" where
  "alnum_leading x =
     (case x of
        [] \<Rightarrow> False
      | c # _ \<Rightarrow>
          (let n = of_char c :: nat in
           (48 \<le> n \<and> n \<le> 57) \<or> (65 \<le> n \<and> n \<le> 90) \<or> (97 \<le> n \<and> n \<le> 122)))"

subsection \<open>Objects\<close>

text \<open>An array index is the canonical decimal numeral of a number below \<open>2^32 - 1\<close>.
  Such keys are enumerated first, in ascending order; the other keys follow in the order
  of their creation.\<close>

definition is_array_index :: "string \<Rightarrow> bool" where
  "is_array_index k =
     (k \<noteq> [] \<and> list_all is_digit k \<and> (hd k \<noteq> CHR ''0'' \<or> length k = 1)
      \<and> nat_of_digits k < 4294967295)"

text \<open>Reading a property: \<open>o[k]\<close> and \<open>o.k\<close>; an absent one reads \<open>undefined\<close>.\<close>

definition get_prop :: "obj \<Rightarrow> string \<Rightarrow> jsval" where
  "get_prop ob k = (case map_of ob k of Some v \<Rightarrow> v | None \<Rightarrow> JUndefined)"

text \<open>\<open>delete o.k\<close>.\<close>

definition delete_prop :: "(string \<times> 'v) list \<Rightarrow> string \<Rightarrow> (string \<times> 'v) list" where
  "delete_prop ob k = filter (\<lambda>p. fst p \<noteq> k) ob"

fun replace_prop :: "string \<Rightarrow> 'v \<Rightarrow> (string \<times> 'v) list \<Rightarrow> (string \<times> 'v) list" where
  "replace_prop k v [] = []"
| "replace_prop k v (p # ps) = (if fst p = k then (k, v) # ps else p # replace_prop k v ps)"

fun insert_index :: "string \<Rightarrow> 'v \<Rightarrow> (string \<times> 'v) list \<Rightarrow> (string \<times> 'v) list" where
  "insert_index k v [] = [(k, v)]"
| "insert_index k v (p # ps) =
     (if is_array_index (fst p) \<and> nat_of_digits (fst p) < nat_of_digits k
      then p # insert_index k v ps else (k, v) # p # ps)"

text \<open>Defining a property, as an object literal, a spread and \<open>JSON.parse\<close> do: an
  existing key keeps its place and takes the new value; a new key is enumerated where
  its kind puts it.\<close>

definition set_prop :: "(string \<times> 'v) list \<Rightarrow> string \<Rightarrow> 'v \<Rightarrow> (string \<times> 'v) list" where
  "set_prop ob k v =
     (if k \<in> set (map fst ob) then replace_prop k v ob
      else if is_array_index k then insert_index k v ob
      else ob @ [(k, v)])"

text \<open>The own enumerable properties of a value, as \<open>Object.keys\<close> and a spread
  \<open>{...x}\<close> see them: those of an object, the elements of an array and the code units
  of a string under their indices, none for anything else.\<close>

fun own_props :: "jsval \<Rightarrow> obj" where
  "own_props (JObj kvs) = kvs"
| "own_props (JArr xs) = zip (map show_nat [0..<length xs]) xs"
| "own_props (JStr s) = zip (map show_nat [0..<length s]) (map (\<lambda>c. JStr [c]) s)"
| "own_props JUndefined = []"
| "own_props JNull = []"
| "own_props (JBool b) = []"
| "own_props (JNum n) = []"
| "own_props (JHost h) = []"

text \<open>\<open>{...target, ...src}\<close>: the properties of \<open>src\<close> are defined on the copy of
  \<open>target\<close> one after the other.\<close>

definition spread :: "(string \<times> 'v) list \<Rightarrow> (string \<times> 'v) list \<Rightarrow> (string \<times> 'v) list" where
  "spread target src = fold (\<lambda>p t. set_prop t (fst p) (snd p)) src target"



subsection \<open>Joining strings\<close>

text \<open>The strings of a list with a separator between them.\<close>

fun join_with :: "string \<Rightarrow> string list \<Rightarrow> string" where
  "join_with sep [] = []"
| "join_with sep [x] = x"
| "join_with sep (x # y # ys) = x @ sep @ join_with sep (y # ys)"

subsection \<open>String conversion\<close>

text \<open>\<open>ToString\<close>, which a template literal \<open>`${body}`\<close> and \<open>FormData.append\<close>
  apply. An array joins its elements with commas, \<open>null\<close> and \<open>undefined\<close> elements
  giving the empty string.\<close>

text \<open>\<open>Number::toString\<close>. An integer up to \<open>2^53\<close> in magnitude is written
  with all its digits.\<close>

definition show_num :: "jsnum \<Rightarrow> string" where
  "show_num n =
     (case n of
        NaN \<Rightarrow> ''NaN''
      | Infinity pos \<Rightarrow> (if pos then ''Infinity'' else ''-Infinity'')
      | NegZero \<Rightarrow> ''0''
      | Integer i \<Rightarrow> (if \<bar>i\<bar> \<le> 9007199254740992 then show_int i else show_rat (of_int i))
      | Fraction q \<Rightarrow> show_rat q)"

definition show_host :: "host \<Rightarrow> string" where
  "show_host h =
     (case h of
        FormData fs \<Rightarrow> ''[object FormData]''
      | ArrayBuffer b \<Rightarrow> ''[object ArrayBuffer]''
      | ReadableStream b \<Rightarrow> ''[object ReadableStream]''
      | Headers hs \<Rightarrow> ''[object Headers]'')"

fun ToString :: "jsval \<Rightarrow> string" and join_elems :: "jsval list \<Rightarrow> string" where
  "ToString JUndefined = ''undefined''"
| "ToString JNull = ''null''"
| "ToString (JBool b) = (if b then ''true'' else ''false'')"
| "ToString (JNum n) = show_num n"
| "ToString (JStr s) = s"
| "ToString (JArr xs) = join_elems xs"
| "ToString (JObj kvs) = ''[object Object]''"
| "ToString (JHost h) = show_host h"
| "join_elems [] = []"
| "join_elems [x] = (if x = JNull \<or> x = JUndefined then [] else ToString x)"
| "join_elems (x # y # ys) =
     (if x = JNull \<or> x = JUndefined then [] else ToString x) @ '','' @ join_elems (y # ys)"

section \<open>JSON\<close>

subsection \<open>\<open>JSON.stringify\<close>\<close>

text \<open>\<open>QuoteJSONString\<close>: the quotation mark, the backslash and the control characters
  are escaped, the named ones by their letter and the others as \<open>\u00XX\<close> in lower-case
  hexadecimal.\<close>

definition hex_digit :: "nat \<Rightarrow> char" where
  "hex_digit n = (if n < 10 then char_of (48 + n) else char_of (87 + n))"

definition quote_char :: "char \<Rightarrow> string" where
  "quote_char c =
     (let n = of_char c :: nat in
      if n = 34 then [CHR 0x5C, CHR 0x22]
      else if n = 92 then [CHR 0x5C, CHR 0x5C]
      else if n = 8 then [CHR 0x5C, CHR ''b'']
      else if n = 9 then [CHR 0x5C, CHR ''t'']
      else if n = 10 then [CHR 0x5C, CHR ''n'']
      else if n = 12 then [CHR 0x5C, CHR ''f'']
      else if n = 13 then [CHR 0x5C, CHR ''r'']
      else if n < 32 then [CHR 0x5C, CHR ''u'', CHR ''0'', CHR ''0'', hex_digit (n div 16), hex_digit (n mod 16)]
      else [c])"

definition quote_chars :: "string \<Rightarrow> string" where
  "quote_chars s = concat (map quote_char s)"

definition QuoteJSONString :: "string \<Rightarrow> string" where
  "QuoteJSONString s = CHR 0x22 # quote_chars s @ [CHR 0x22]"

text \<open>\<open>SerializeJSONProperty\<close>: \<open>undefined\<close> has no text (\<open>None\<close>); a number that is
  not finite is written \<open>null\<close>. An array and an object collect the texts of their
  parts and join them with commas: in an array an element without text is written
  \<open>null\<close>; in an object a property without text is left out. A host object, which has
  no own enumerable property, is written \<open>{}\<close>.\<close>

fun SerializeJSONProperty :: "jsval \<Rightarrow> string option"
  and SerializeJSONArray :: "jsval list \<Rightarrow> string list"
  and SerializeJSONObject :: "(string \<times> jsval) list \<Rightarrow> string list"
where
  "SerializeJSONProperty JUndefined = None"
| "SerializeJSONProperty JNull = Some ''null''"
| "SerializeJSONProperty (JBool b) = Some (if b then ''true'' else ''false'')"
| "SerializeJSONProperty (JNum n) =
     Some (case n of NaN \<Rightarrow> ''null'' | Infinity pos \<Rightarrow> ''null'' | _ \<Rightarrow> show_num n)"
| "SerializeJSONProperty (JStr s) = Some (QuoteJSONString s)"
| "SerializeJSONProperty (JArr xs) =
     Some (''['' @ join_with '','' (SerializeJSONArray xs) @ '']'')"
| "SerializeJSONProperty (JObj kvs) =
     Some (''{'' @ join_with '','' (SerializeJSONObject kvs) @ ''}'')"
| "SerializeJSONProperty (JHost h) = Some ''{}''"
| "SerializeJSONArray [] = []"
| "SerializeJSONArray (x # xs) =
     (case SerializeJSONProperty x of None \<Rightarrow> ''null'' | Some s \<Rightarrow> s) # SerializeJSONArray xs"
| "SerializeJSONObject [] = []"
| "SerializeJSONObject (p # ps) =
     (case SerializeJSONProperty (snd p) of
        None \<Rightarrow> SerializeJSONObject ps
      | Some s \<Rightarrow> (QuoteJSONString (fst p) @ '':'' @ s) # SerializeJSONObject ps)"

text \<open>\<open>JSON.stringify(v)\<close> is the text as a string, or \<open>undefined\<close>.\<close>

definition JSON_stringify :: "jsval \<Rightarrow> jsval" where
  "JSON_stringify v = (case SerializeJSONProperty v of None \<Rightarrow> JUndefined | Some s \<Rightarrow> JStr s)"

subsection \<open>\<open>JSON.parse\<close>\<close>

text \<open>A recursive-descent reader of the JSON grammar. White space is tab, line feed,
  carriage return and space. The reader covers the escapes below 256; a larger escape
  is \<open>Unsupported\<close>. The first argument of the recursive functions bounds the number
  of nested calls.\<close>

definition is_ws :: "char \<Rightarrow> bool" where
  "is_ws c = (c = CHR 0x09 \<or> c = CHR 0x0A \<or> c = CHR 0x0D \<or> c = CHR 0x20)"

definition skip_ws :: "string \<Rightarrow> string" where
  "skip_ws s = dropWhile is_ws s"

definition hex_val :: "char \<Rightarrow> nat option" where
  "hex_val c =
     (let n = of_char c :: nat in
      if 48 \<le> n \<and> n \<le> 57 then Some (n - 48)
      else if 97 \<le> n \<and> n \<le> 102 then Some (n - 87)
      else if 65 \<le> n \<and> n \<le> 70 then Some (n - 55)
      else None)"

definition unescape :: "char \<Rightarrow> char option" where
  "unescape e =
     (if e = CHR 0x22 then Some (CHR 0x22)
      else if e = CHR 0x5C then Some (CHR 0x5C)
      else if e = CHR ''/'' then Some (CHR ''/'')
      else if e = CHR ''b'' then Some (CHR 0x08)
      else if e = CHR ''f'' then Some (CHR 0x0C)
      else if e = CHR ''n'' then Some (CHR 0x0A)
      else if e = CHR ''r'' then Some (CHR 0x0D)
      else if e = CHR ''t'' then Some (CHR 0x09)
      else None)"

definition unescape_u :: "string \<Rightarrow> error + char" where
  "unescape_u hs =
     (case map hex_val hs of
        [Some a, Some b, Some c, Some d] \<Rightarrow>
          (let n = ((a * 16 + b) * 16 + c) * 16 + d in
           if n < 256 then Inr (char_of n) else Inl Unsupported)
      | _ \<Rightarrow> Inl SyntaxError)"

definition cons_char :: "char \<Rightarrow> error + (string \<times> string) \<Rightarrow> error + (string \<times> string)" where
  "cons_char c res = (case res of Inl e \<Rightarrow> Inl e | Inr (s, r) \<Rightarrow> Inr (c # s, r))"

text \<open>The characters of a string after its opening quotation mark, up to the closing
  one; the result is the string and the text that follows it.\<close>

fun parse_chars :: "string \<Rightarrow> error + (string \<times> string)" where
  "parse_chars [] = Inl SyntaxError"
| "parse_chars (c # cs) =
     (if c = CHR 0x22 then Inr ([], cs)
      else if c = CHR 0x5C then
        (case cs of
           [] \<Rightarrow> Inl SyntaxError
         | e # r \<Rightarrow>
             if e = CHR ''u'' then
               (if length r < 4 then Inl SyntaxError
                else
                  (case unescape_u (take 4 r) of
                     Inl err \<Rightarrow> Inl err
                   | Inr ch \<Rightarrow> cons_char ch (parse_chars (drop 4 r))))
             else
               (case unescape e of
                  None \<Rightarrow> Inl SyntaxError
                | Some ch \<Rightarrow> cons_char ch (parse_chars r)))
      else if (of_char c :: nat) < 32 then Inl SyntaxError
      else cons_char c (parse_chars cs))"

text \<open>A number: an optional minus sign; \<open>0\<close> or a numeral without leading zero;
  then, each optional, a point with at least one digit and an exponent, which is \<open>e\<close>
  or \<open>E\<close>, an optional sign and at least one digit. Its value is the Number value for
  the decimal it writes.\<close>

definition int_digits :: "string \<Rightarrow> string" where
  "int_digits s = (if s \<noteq> [] \<and> hd s = CHR ''0'' then ''0'' else takeWhile is_digit s)"

text \<open>The digits after a point, and the text after them: none where no point follows,
  and no result where no digit follows the point.\<close>

definition read_fraction :: "string \<Rightarrow> (string \<times> string) option" where
  "read_fraction r =
     (if r \<noteq> [] \<and> hd r = CHR ''.''
      then (let fp = takeWhile is_digit (tl r)
            in if fp = [] then None else Some (fp, drop (length fp) (tl r)))
      else Some ([], r))"

text \<open>The exponent, and the text after it: zero where no \<open>e\<close> follows, and no result
  where no digit follows the \<open>e\<close> and its sign.\<close>

definition read_exponent :: "string \<Rightarrow> (int \<times> string) option" where
  "read_exponent r =
     (if r \<noteq> [] \<and> (hd r = CHR ''e'' \<or> hd r = CHR ''E'')
      then (let r1 = tl r;
                signed = (r1 \<noteq> [] \<and> (hd r1 = CHR ''-'' \<or> hd r1 = CHR ''+''));
                ep = takeWhile is_digit (if signed then tl r1 else r1);
                e = int (nat_of_digits ep)
            in if ep = [] then None
               else Some (if signed \<and> hd r1 = CHR ''-'' then - e else e,
                          drop (length ep) (if signed then tl r1 else r1)))
      else Some (0, r))"

definition parse_number :: "string \<Rightarrow> error + (jsval \<times> string)" where
  "parse_number s =
     (let neg = (s \<noteq> [] \<and> hd s = CHR ''-'');
          s1 = (if neg then tl s else s);
          ip = int_digits s1
      in if ip = [] then Inl SyntaxError
         else
           (case read_fraction (drop (length ip) s1) of
              None \<Rightarrow> Inl SyntaxError
            | Some (fp, r2) \<Rightarrow>
                (case read_exponent r2 of
                   None \<Rightarrow> Inl SyntaxError
                 | Some (e, rest) \<Rightarrow>
                     Inr (JNum (number_of neg
                            (of_nat (nat_of_digits (ip @ fp)) * exp_int 10 (e - int (length fp)))),
                          rest))))"

fun parse_value :: "nat \<Rightarrow> string \<Rightarrow> error + (jsval \<times> string)"
  and parse_elements :: "nat \<Rightarrow> string \<Rightarrow> error + (jsval list \<times> string)"
  and parse_members :: "nat \<Rightarrow> string \<Rightarrow> error + ((string \<times> jsval) list \<times> string)"
where
  "parse_value 0 s = Inl OutOfFuel"
| "parse_value (Suc n) s =
     (case skip_ws s of
        [] \<Rightarrow> Inl SyntaxError
      | c # cs \<Rightarrow>
          if c = CHR ''['' then
            (if skip_ws cs \<noteq> [] \<and> hd (skip_ws cs) = CHR '']'' then Inr (JArr [], tl (skip_ws cs))
             else
               (case parse_elements n cs of
                  Inl e \<Rightarrow> Inl e
                | Inr (xs, r) \<Rightarrow> Inr (JArr xs, r)))
          else if c = CHR ''{'' then
            (if skip_ws cs \<noteq> [] \<and> hd (skip_ws cs) = CHR ''}'' then Inr (JObj [], tl (skip_ws cs))
             else
               (case parse_members n cs of
                  Inl e \<Rightarrow> Inl e
                | Inr (kvs, r) \<Rightarrow> Inr (JObj (spread [] kvs), r)))
          else if c = CHR 0x22 then
            (case parse_chars cs of
               Inl e \<Rightarrow> Inl e
             | Inr (str, r) \<Rightarrow> Inr (JStr str, r))
          else if prefix ''null'' (c # cs) then Inr (JNull, drop 4 (c # cs))
          else if prefix ''true'' (c # cs) then Inr (JBool True, drop 4 (c # cs))
          else if prefix ''false'' (c # cs) then Inr (JBool False, drop 5 (c # cs))
          else if c = CHR ''-'' \<or> is_digit c then parse_number (c # cs)
          else Inl SyntaxError)"
| "parse_elements 0 s = Inl OutOfFuel"
| "parse_elements (Suc n) s =
     (case parse_value n s of
        Inl e \<Rightarrow> Inl e
      | Inr (x, r) \<Rightarrow>
          (case skip_ws r of
             [] \<Rightarrow> Inl SyntaxError
           | c # r' \<Rightarrow>
               if c = CHR '','' then
                 (case parse_elements n r' of
                    Inl e \<Rightarrow> Inl e
                  | Inr (xs, r'') \<Rightarrow> Inr (x # xs, r''))
               else if c = CHR '']'' then Inr ([x], r')
               else Inl SyntaxError))"
| "parse_members 0 s = Inl OutOfFuel"
| "parse_members (Suc n) s =
     (case skip_ws s of
        [] \<Rightarrow> Inl SyntaxError
      | q # cs \<Rightarrow>
          if q \<noteq> CHR 0x22 then Inl SyntaxError
          else
            (case parse_chars cs of
               Inl e \<Rightarrow> Inl e
             | Inr (k, r) \<Rightarrow>
                 (case skip_ws r of
                    [] \<Rightarrow> Inl SyntaxError
                  | colon # r1 \<Rightarrow>
                      if colon \<noteq> CHR '':'' then Inl SyntaxError
                      else
                        (case parse_value n r1 of
                           Inl e \<Rightarrow> Inl e
                         | Inr (v, r2) \<Rightarrow>
                             (case skip_ws r2 of
                                [] \<Rightarrow> Inl SyntaxError
                              | c # r3 \<Rightarrow>
                                  if c = CHR '','' then
                                    (case parse_members n r3 of
                                       Inl e \<Rightarrow> Inl e
                                     | Inr (kvs, r4) \<Rightarrow> Inr ((k, v) # kvs, r4))
                                  else if c = CHR ''}'' then Inr ([(k, v)], r3)
                                  else Inl SyntaxError)))))"

text \<open>\<open>JSON.parse(text)\<close>: one value, with nothing but white space after it. Every
  two nested calls of the reader consume a character, so the bound given here is never
  exhausted (lemma \<open>JSON_parse_total\<close> below).\<close>

definition JSON_parse :: "string \<Rightarrow> error + jsval" where
  "JSON_parse text =
     (case parse_value (2 * length text + 2) text of
        Inl e \<Rightarrow> Inl e
      | Inr (v, r) \<Rightarrow> (if skip_ws r = [] then Inr v else Inl SyntaxError))"

subsection \<open>The values JSON represents\<close>



section \<open>The client\<close>

subsection \<open>\<open>getHeader\<close>\<close>

definition getHeader :: "obj \<Rightarrow> string \<Rightarrow> jsval" where
  "getHeader headers name =
     (let lname = toLowerCase name;
          key = find (\<lambda>x. toLowerCase x = lname) (filter alnum_leading (map fst headers))
      in case key of
           None \<Rightarrow> JNull
         | Some k \<Rightarrow> (if k \<noteq> [] then get_prop headers k else JNull))"

subsection \<open>\<open>parseBody\<close>\<close>

text \<open>The settled value of the promise \<open>parseBody\<close> returns. \<open>startsWith\<close> is a
  method of strings only: on \<open>null\<close> (no header found) and on any other value that is
  not a string the call throws a \<open>TypeError\<close>.\<close>

definition parseBody :: "jsval \<Rightarrow> obj \<Rightarrow> error + jsval" where
  "parseBody body headers =
     (if \<not> truthy body then Inr body
      else
        (case getHeader headers ''content-type'' of
           JStr contentType \<Rightarrow>
             if prefix ''text/'' contentType then Inr (JStr (ToString body))
             else if prefix ''application/json'' contentType then Inr (JSON_stringify body)
             else if prefix ''multipart/form-data'' contentType then
               Inr (JHost (FormData (map (\<lambda>p. (fst p, ToString (snd p))) (own_props body))))
             else Inr body
         | _ \<Rightarrow> Inl TypeError))"

subsection \<open>The platform and the transport\<close>

text \<open>The response the transport resolves to: its status line, the own enumerable
  properties of its \<open>headers\<close>, which are what \<open>getHeader\<close> enumerates, and its
  payload as text. \<open>ok\<close> is the getter of the Fetch standard: the status is in the
  range 200 to 299.\<close>

record Response =
  status :: int
  statusText :: string
  res_headers :: obj
  res_body :: string

definition ok :: "Response \<Rightarrow> bool" where
  "ok result = (200 \<le> status result \<and> status result \<le> 299)"

text \<open>A \<open>Response\<close> of the Fetch standard, which the global \<open>fetch\<close> resolves to,
  holds the headers the server sent in a \<open>Headers\<close> instance. That is a host object:
  it has no own enumerable property, whatever it holds.\<close>

definition fetch_Response :: "int \<Rightarrow> string \<Rightarrow> (string \<times> string) list \<Rightarrow> string \<Rightarrow> Response" where
  "fetch_Response st phrase hs payload =
     \<lparr>status = st, statusText = phrase,
      res_headers = own_props (JHost (Headers hs)), res_body = payload\<rparr>"

text \<open>A property of the options object handed to \<open>fetch\<close> is a value, or the promise
  that \<open>parseBody\<close> returned (never awaited by the caller), written as what it settles
  to.\<close>

datatype init_val = Now jsval | Promise "error + jsval"

record request =
  url :: string
  init :: "(string \<times> init_val) list"

text \<open>What the client imports and calls but does not define: \<open>Qs.stringify\<close> of the
  \<open>qs\<close> package, \<open>HttpStatus.getStatusText\<close> of the \<open>http-status-codes\<close> package
  (its table of reason phrases; it may throw on a code it does not list), and the global
  \<open>fetch\<close>. They are parameters of the model.\<close>

record platform =
  Qs_stringify :: "jsval \<Rightarrow> string"
  getStatusText :: "jsval \<Rightarrow> error + string"
  fetch :: "request \<Rightarrow> error + Response"

subsection \<open>\<open>HTTPError\<close>\<close>

text \<open>\<open>parseInt(x, 10)\<close>: the Number value for the integer the string of \<open>x\<close>
  starts with, after white space and a sign; \<open>NaN\<close> when there is none.\<close>

definition is_space :: "char \<Rightarrow> bool" where
  "is_space c = ((of_char c :: nat) \<in> {9, 10, 11, 12, 13, 32, 160})"

definition parseInt10 :: "jsval \<Rightarrow> jsnum" where
  "parseInt10 x =
     (let s = dropWhile is_space (ToString x);
          neg = (s \<noteq> [] \<and> hd s = CHR ''-'');
          t = (if s \<noteq> [] \<and> (hd s = CHR ''-'' \<or> hd s = CHR ''+'') then tl s else s);
          ds = takeWhile is_digit t
      in if ds = [] then NaN else number_of neg (of_nat (nat_of_digits ds)))"

text \<open>The constructor looks the reason phrase up first, so it throws what the lookup
  throws. An empty message is replaced by the phrase, and the code is stored as
  \<open>parseInt(code, 10)\<close>.\<close>

definition new_HTTPError :: "platform \<Rightarrow> jsval \<Rightarrow> string \<Rightarrow> jsval \<Rightarrow> error + HTTPError" where
  "new_HTTPError env c msg resp =
     (case getStatusText env c of
        Inl e \<Rightarrow> Inl e
      | Inr phrase \<Rightarrow>
          Inr \<lparr>message = (if msg = [] then phrase else msg),
               code = parseInt10 c,
               response = resp\<rparr>)"

text \<open>The getter \<open>statusText\<close> of an \<open>HTTPError\<close>.\<close>

definition HTTPError_statusText :: "platform \<Rightarrow> HTTPError \<Rightarrow> error + string" where
  "HTTPError_statusText env e = getStatusText env (JNum (code e))"

subsection \<open>\<open>RestClient\<close>\<close>

text \<open>The instance: the private fields \<open>#baseUrl\<close>, \<open>#headers\<close> and
  \<open>#simulatedDelay\<close>, and the two methods a subclass overrides.\<close>

record RestClient =
  p_baseUrl :: string
  p_headers :: obj
  p_simulatedDelay :: jsnum
  resolveHeaders :: "string \<Rightarrow> string \<Rightarrow> jsval \<Rightarrow> jsval \<Rightarrow> obj \<Rightarrow> error + jsval"
  transform :: "jsval \<Rightarrow> error + jsval"

definition updateHeaders :: "RestClient \<Rightarrow> jsval \<Rightarrow> RestClient" where
  "updateHeaders c hs =
     c\<lparr>p_headers := spread (spread [] (p_headers c)) (own_props (default_arg (JObj []) hs))\<rparr>"

text \<open>The field initialisers, with the two methods as the class defines them.\<close>

definition RestClient_fields :: RestClient where
  "RestClient_fields =
     \<lparr>p_baseUrl = [],
      p_headers = [(''Accept'', JStr ''application/json''),
                   (''Content-Type'', JStr ''application/json'')],
      p_simulatedDelay = Integer 0,
      resolveHeaders = (\<lambda>route method params b options. Inr (JObj [])),
      transform = (\<lambda>data. Inr data)\<rparr>"

definition new_RestClient :: "string \<Rightarrow> obj \<Rightarrow> error + RestClient" where
  "new_RestClient base options =
     (if base = [] then Inl (Error ''missing baseUrl'')
      else
        (let c1 = updateHeaders (RestClient_fields\<lparr>p_baseUrl := base\<rparr>)
                    (or_else (get_prop options ''headers'') (JObj []));
             delay = get_prop options ''simulatedDelay''
         in Inr (c1\<lparr>p_simulatedDelay := (if truthy delay then parseInt10 delay else Integer 0)\<rparr>)))"

text \<open>\<open>fullRoute\<close>: \<open>replace(/\?$/, '')\<close> removes a question mark that ends the
  string.\<close>

definition fullRoute :: "platform \<Rightarrow> RestClient \<Rightarrow> string \<Rightarrow> jsval \<Rightarrow> string" where
  "fullRoute env c u params =
     (let sqs = Qs_stringify env (default_arg (JObj []) params);
          s = p_baseUrl c @ u @ ''?'' @ sqs
      in if s \<noteq> [] \<and> last s = CHR ''?'' then butlast s else s)"

subsection \<open>\<open>resolveResponse\<close>\<close>

text \<open>\<open>forceType || getHeader(headers, 'content-type').toLowerCase()\<close>, then
  \<open>startsWith\<close> on the outcome: both are methods of strings only.\<close>

definition resolveResponse :: "Response \<Rightarrow> jsval \<Rightarrow> jsval \<Rightarrow> error + jsval" where
  "resolveResponse result forceType resolveStreams =
     (case (if truthy forceType then Inr forceType
            else
              (case getHeader (res_headers result) ''content-type'' of
                 JStr s \<Rightarrow> Inr (JStr (toLowerCase s))
               | _ \<Rightarrow> Inl TypeError)) of
        Inl e \<Rightarrow> Inl e
      | Inr (JStr contentType) \<Rightarrow>
          if prefix ''text/'' contentType then Inr (JStr (res_body result))
          else if prefix ''application/json'' contentType then JSON_parse (res_body result)
          else if truthy resolveStreams then Inr (JHost (ArrayBuffer (res_body result)))
          else Inr (JHost (ReadableStream (res_body result)))
      | Inr _ \<Rightarrow> Inl TypeError)"

subsection \<open>The private method \<open>_fetch\<close>\<close>

text \<open>The outcome of a call is the request handed to the transport, if the call came
  that far, and what the call resolves to or rejects with. The simulated delay changes
  neither.\<close>

type_synonym outcome = "request option \<times> (error + jsval)"

definition merged_headers :: "RestClient \<Rightarrow> obj \<Rightarrow> jsval \<Rightarrow> obj" where
  "merged_headers c options resolved =
     spread
       (spread (spread [] (p_headers c))
          (own_props (or_else (get_prop options ''headers'') (JObj []))))
       (own_props resolved)"

definition fetchOptions :: "string \<Rightarrow> obj \<Rightarrow> jsval \<Rightarrow> obj \<Rightarrow> (string \<times> init_val) list" where
  "fetchOptions method hdrs b options =
     spread
       [(''method'', Now (JStr method)),
        (''headers'', Now (JObj hdrs)),
        (''body'', Promise (parseBody b hdrs))]
       (map (\<lambda>p. (fst p, Now (snd p)))
          (own_props (or_else (get_prop options ''fetchOptions'') (JObj []))))"

definition RestClient_fetch ::
  "platform \<Rightarrow> RestClient \<Rightarrow> string \<Rightarrow> string \<Rightarrow> jsval \<Rightarrow> jsval \<Rightarrow> obj \<Rightarrow> outcome" where
  "RestClient_fetch env c route method params0 body0 options =
     (let params = default_arg (JObj []) params0;
          b = default_arg JNull body0
      in if route = [] then (None, Inl (Error ''Route is not defined''))
         else
           (case resolveHeaders c route method params b options of
              Inl e \<Rightarrow> (None, Inl e)
            | Inr resolved \<Rightarrow>
                (let hdrs = merged_headers c options resolved;
                     req = \<lparr>url = fullRoute env c route params,
                            init = fetchOptions method hdrs b options\<rparr>
                 in case fetch env req of
                      Inl e \<Rightarrow> (Some req, Inl e)
                    | Inr result \<Rightarrow>
                        (case resolveResponse result
                                (or_else (get_prop options ''forceType'') JNull)
                                (or_else (get_prop options ''resolveStreams'') (JBool False)) of
                           Inl e \<Rightarrow> (Some req, Inl e)
                         | Inr decoded \<Rightarrow>
                             if \<not> ok result then
                               (case new_HTTPError env (JNum (Integer (status result))) (statusText result)
                                       decoded of
                                  Inl e \<Rightarrow> (Some req, Inl e)
                                | Inr err \<Rightarrow> (Some req, Inl (Thrown err)))
                             else (Some req, transform c decoded)))))"

subsection \<open>The verbs and \<open>simpleFetch\<close>\<close>

definition get :: "platform \<Rightarrow> RestClient \<Rightarrow> string \<Rightarrow> jsval \<Rightarrow> obj \<Rightarrow> outcome" where
  "get env c route query options =
     RestClient_fetch env c route ''GET'' (default_arg (JObj []) query) JNull options"

definition post :: "platform \<Rightarrow> RestClient \<Rightarrow> string \<Rightarrow> jsval \<Rightarrow> obj \<Rightarrow> outcome" where
  "post env c route b options =
     (let query = or_else (get_prop options ''query'') (JObj [])
      in RestClient_fetch env c route ''POST'' query b (delete_prop options ''query''))"

definition put :: "platform \<Rightarrow> RestClient \<Rightarrow> string \<Rightarrow> jsval \<Rightarrow> obj \<Rightarrow> outcome" where
  "put env c route b options =
     (let query = or_else (get_prop options ''query'') (JObj [])
      in RestClient_fetch env c route ''PUT'' query b (delete_prop options ''query''))"

definition patch :: "platform \<Rightarrow> RestClient \<Rightarrow> string \<Rightarrow> jsval \<Rightarrow> obj \<Rightarrow> outcome" where
  "patch env c route b options =
     (let query = or_else (get_prop options ''query'') (JObj [])
      in RestClient_fetch env c route ''PATCH'' query b (delete_prop options ''query''))"

text \<open>\<open>delete\<close> passes four arguments: its options stand where \<open>_fetch\<close> takes the
  body, and the fifth parameter of \<open>_fetch\<close> takes its default \<open>{}\<close>.\<close>

definition delete :: "platform \<Rightarrow> RestClient \<Rightarrow> string \<Rightarrow> jsval \<Rightarrow> obj \<Rightarrow> outcome" where
  "delete env c route query options =
     RestClient_fetch env c route ''DELETE'' (default_arg (JObj []) query) (JObj options) []"

definition simpleFetch ::
  "platform \<Rightarrow> string \<Rightarrow> string \<Rightarrow> jsval \<Rightarrow> jsval \<Rightarrow> obj \<Rightarrow> outcome" where
  "simpleFetch env base method params b options =
     (case new_RestClient base [] of
        Inl e \<Rightarrow> (None, Inl e)
      | Inr api \<Rightarrow>
          RestClient_fetch env api [] method (default_arg (JObj []) params)
            (default_arg (JObj []) b) options)"

subsection \<open>An instance of the platform\<close>

text \<open>The examples run the client against stand-ins for the three dependencies: a
  query-string encoder that writes a flat mapping as \<open>key=value\<close> pairs joined by
  \<open>&\<close> (as \<open>Qs.stringify\<close> does when no character needs escaping), a table with some
  of the registered reason phrases that throws on any other code, and a transport that
  answers every request with one given response.\<close>

definition qs_flat :: "jsval \<Rightarrow> string" where
  "qs_flat params = join_with ''&'' (map (\<lambda>p. fst p @ ''='' @ ToString (snd p)) (own_props params))"

definition reason_phrase :: "jsval \<Rightarrow> error + string" where
  "reason_phrase c =
     (if c = JNum (Integer 200) then Inr ''OK''
      else if c = JNum (Integer 400) then Inr ''Bad Request''
      else if c = JNum (Integer 401) then Inr ''Unauthorized''
      else if c = JNum (Integer 403) then Inr ''Forbidden''
      else if c = JNum (Integer 404) then Inr ''Not Found''
      else if c = JNum (Integer 503) then Inr ''Service Unavailable''
      else Inl (Error (''Status code does not exist: '' @ ToString c)))"

definition platform_answering :: "Response \<Rightarrow> platform" where
  "platform_answering result =
     \<lparr>Qs_stringify = qs_flat, getStatusText = reason_phrase, fetch = (\<lambda>req. Inr result)\<rparr>"

definition example_client :: RestClient where
  "example_client = RestClient_fields\<lparr>p_baseUrl := ''http://api.test''\<rparr>"

text \<open>The response and the options of the examples: the response is the one of the
  Fetch standard for a 404 with the header \<open>Content-Type: application/json\<close> and the
  payload \<open>{"error":"not found"}\<close>.\<close>

definition not_found_response :: Response where
  \<open>not_found_response =
     fetch_Response 404 ''Not Found'' [(''content-type'', ''application/json'')]
       ''{"error":"not found"}''\<close>

definition token_options :: obj where
  "token_options = [(''headers'', JObj [(''X-Token'', JStr ''t'')])]"


section \<open>Header lookup\<close>

lemma find_keys:
  "find Q (filter P (map fst hs)) = map_option fst (find (\<lambda>p. P (fst p) \<and> Q (fst p)) hs)"
  by (induction hs) auto

lemma find_holds: "find P xs = Some x \<Longrightarrow> P x"
  by (induction xs) (auto split: if_splits)

lemma find_first_binding:
  "find (\<lambda>p. R (fst p)) hs = Some p \<Longrightarrow> map_of hs (fst p) = Some (snd p)"
proof (induction hs)
  case Nil
  then show ?case by simp
next
  case (Cons q hs)
  show ?case
  proof (cases "R (fst q)")
    case True
    with Cons.prems show ?thesis by (cases q) auto
  next
    case False
    with Cons.prems have rest: "find (\<lambda>p. R (fst p)) hs = Some p" by simp
    then have "R (fst p)" by (rule find_holds)
    with False have "fst q \<noteq> fst p" by auto
    with Cons.IH [OF rest] show ?thesis by (cases q) simp
  qed
qed

lemma alnum_leading_nonempty: "alnum_leading k \<Longrightarrow> k \<noteq> []"
  by (auto simp: alnum_leading_def)

text \<open>The two passes over the keys and the read by key amount to one pass over the
  properties.\<close>

lemma getHeader_find:
  "getHeader headers name =
     (case find (\<lambda>p. alnum_leading (fst p) \<and> toLowerCase (fst p) = toLowerCase name) headers of
        None \<Rightarrow> JNull
      | Some p \<Rightarrow> snd p)"
proof -
  let ?R = "\<lambda>k. alnum_leading k \<and> toLowerCase k = toLowerCase name"
  have key: "find (\<lambda>x. toLowerCase x = toLowerCase name) (filter alnum_leading (map fst headers))
      = map_option fst (find (\<lambda>p. ?R (fst p)) headers)"
    by (rule find_keys)
  show ?thesis
  proof (cases "find (\<lambda>p. ?R (fst p)) headers")
    case None
    with key show ?thesis by (simp add: getHeader_def)
  next
    case (Some p)
    then have "map_of headers (fst p) = Some (snd p)"
      by (rule find_first_binding)
    moreover from Some have "?R (fst p)"
      by (rule find_holds)
    then have "fst p \<noteq> []"
      using alnum_leading_nonempty by blast
    ultimately show ?thesis
      using key Some by (simp add: getHeader_def get_prop_def)
  qed
qed

lemma getHeader_absent:
  assumes "\<forall>k \<in> set (map fst headers). toLowerCase k \<noteq> toLowerCase name"
  shows "getHeader headers name = JNull"
proof -
  have "find (\<lambda>p. alnum_leading (fst p) \<and> toLowerCase (fst p) = toLowerCase name) headers = None"
    using assms by (auto simp: find_None_iff)
  then show ?thesis by (simp add: getHeader_find)
qed

lemma lower_content_type: "toLowerCase ''content-type'' = ''content-type''"
  by (simp add: toLowerCase_def toLowerChar_def)

text \<open>
  Claim C8. For every header mapping and name, \<open>getHeader\<close> compares the name with the
  keys after lower-casing both, looks only at keys whose first character is an ASCII
  letter or digit, returns the value of the first such key in the order of enumeration,
  and returns \<open>null\<close> when there is none.
\<close>

theorem getHeader_first_match:
  "getHeader headers name =
     (case find (\<lambda>p. alnum_leading (fst p) \<and> toLowerCase (fst p) = toLowerCase name) headers of
        None \<Rightarrow> JNull
      | Some p \<Rightarrow> snd p)"
  by (rule getHeader_find)

section \<open>Encoding the request body\<close>

text \<open>
  Claim C4. For every truthy body and every header mapping none of whose keys is
  \<open>content-type\<close> in any casing, the lookup of \<open>parseBody\<close> yields \<open>null\<close> and
  \<open>parseBody\<close> fails with a \<open>TypeError\<close>; the body is not passed through.
\<close>

theorem parseBody_missing_content_type:
  assumes "truthy body"
    and "\<forall>k \<in> set (map fst headers). toLowerCase k \<noteq> ''content-type''"
  shows "getHeader headers ''content-type'' = JNull \<and> parseBody body headers = Inl TypeError"
proof -
  have "getHeader headers ''content-type'' = JNull"
    using assms(2) by (intro getHeader_absent) (simp add: lower_content_type)
  with assms(1) show ?thesis by (simp add: parseBody_def)
qed

theorem parseBody_missing_content_type_witness:
  "truthy (JObj [(''a'', JNull)])
   \<and> parseBody (JObj [(''a'', JNull)]) [(''Accept'', JStr ''application/json'')] = Inl TypeError"
  using parseBody_missing_content_type
    [of "JObj [(''a'', JNull)]" "[(''Accept'', JStr ''application/json'')]"]
  by (simp add: toLowerCase_def toLowerChar_def)

text \<open>
  Claim C6. For every falsy body, whatever the headers, \<open>parseBody\<close> returns the body
  itself: nothing is encoded.
\<close>

theorem parseBody_falsy: "\<not> truthy body \<Longrightarrow> parseBody body headers = Inr body"
  by (simp add: parseBody_def)

theorem parseBody_falsy_witness:
  "\<not> truthy (JNum NaN)
   \<and> parseBody (JNum NaN) [(''Content-Type'', JStr ''application/json'')] = Inr (JNum NaN)"
  using parseBody_falsy [of "JNum NaN" "[(''Content-Type'', JStr ''application/json'')]"]
  by simp

section \<open>Decoding the response\<close>

text \<open>
  Claim C10. For every response none of whose header keys is \<open>content-type\<close> in any
  casing, and every falsy \<open>forceType\<close>, \<open>resolveResponse\<close> fails with a \<open>TypeError\<close>,
  whatever \<open>resolveStreams\<close> is: neither the buffer nor the raw body is returned.
\<close>

theorem resolveResponse_missing_content_type:
  assumes "\<not> truthy forceType"
    and "\<forall>k \<in> set (map fst (res_headers result)). toLowerCase k \<noteq> ''content-type''"
  shows "resolveResponse result forceType resolveStreams = Inl TypeError"
proof -
  have "getHeader (res_headers result) ''content-type'' = JNull"
    using assms(2) by (intro getHeader_absent) (simp add: lower_content_type)
  with assms(1) show ?thesis by (simp add: resolveResponse_def)
qed

theorem resolveResponse_missing_content_type_witness:
  "\<not> truthy JNull \<and>
   resolveResponse
     \<lparr>status = 200, statusText = ''OK'',
      res_headers = [(''Content-Length'', JStr ''3'')], res_body = ''abc''\<rparr>
     JNull (JBool True) = Inl TypeError"
  using resolveResponse_missing_content_type
    [of JNull
        "\<lparr>status = 200, statusText = ''OK'',
          res_headers = [(''Content-Length'', JStr ''3'')], res_body = ''abc''\<rparr>"
        "JBool True"]
  by (simp add: toLowerCase_def toLowerChar_def)

section \<open>The one-shot function\<close>

text \<open>
  Claim C3. \<open>simpleFetch\<close> is documented to do a fetch against the given URL. It calls
  \<open>_fetch\<close> with the empty route, which \<open>_fetch\<close> rejects before it builds a request:
  for every URL, method, parameters, body and options the call fails with an \<open>Error\<close>
  and nothing is handed to the transport.
\<close>

theorem simpleFetch_never_fetches:
  "simpleFetch env base method params b options =
     (None, Inl (Error (if base = [] then ''missing baseUrl'' else ''Route is not defined'')))"
  by (simp add: simpleFetch_def new_RestClient_def RestClient_fetch_def Let_def)

section \<open>Objects as finite maps\<close>

lemma map_of_replace_prop:
  "map_of ob k \<noteq> None \<Longrightarrow>
   map_of (replace_prop k v ob) x = (if x = k then Some v else map_of ob x)"
proof (induction ob)
  case Nil
  then show ?case by simp
next
  case (Cons p ob)
  show ?case
  proof (cases "fst p = k")
    case True
    then show ?thesis by (cases p) simp
  next
    case False
    with Cons.prems have "map_of ob k \<noteq> None" by (cases p) simp
    with Cons.IH False show ?thesis by (cases p) auto
  qed
qed

lemma map_of_insert_index:
  "map_of ob k = None \<Longrightarrow>
   map_of (insert_index k v ob) x = (if x = k then Some v else map_of ob x)"
proof (induction ob)
  case Nil
  then show ?case by simp
next
  case (Cons p ob)
  from Cons.prems have ne: "fst p \<noteq> k" and rest: "map_of ob k = None"
    by (cases p; simp split: if_splits)+
  with Cons.IH show ?case by (cases p) auto
qed

lemma map_of_snoc:
  "map_of ob k = None \<Longrightarrow>
   map_of (ob @ [(k, v)]) x = (if x = k then Some v else map_of ob x)"
  by (induction ob) (auto split: if_splits)

lemma map_of_set_prop: "map_of (set_prop ob k v) x = (if x = k then Some v else map_of ob x)"
proof (cases "map_of ob k")
  case None
  then have "k \<notin> set (map fst ob)" by (simp add: map_of_eq_None_iff)
  with None show ?thesis
    by (simp add: set_prop_def map_of_insert_index map_of_snoc del: set_map map_of_append)
next
  case (Some w)
  then have "k \<in> set (map fst ob)"
    using map_of_eq_None_iff [of ob k] by simp
  with Some show ?thesis
    by (simp add: set_prop_def map_of_replace_prop del: set_map)
qed

lemma spread_Cons: "spread target (p # src) = spread (set_prop target (fst p) (snd p)) src"
  by (simp add: spread_def)

lemma map_of_spread_other:
  "map_of src k = None \<Longrightarrow> map_of (spread target src) k = map_of target k"
proof (induction src arbitrary: target)
  case Nil
  show ?case by (simp add: spread_def)
next
  case (Cons p src)
  from Cons.prems have "fst p \<noteq> k" and "map_of src k = None"
    by (cases p; simp split: if_splits)+
  with Cons.IH show ?case by (simp add: spread_Cons map_of_set_prop)
qed

lemma map_of_spread:
  "distinct (map fst src) \<Longrightarrow>
   map_of (spread target src) x =
     (case map_of src x of Some v \<Rightarrow> Some v | None \<Rightarrow> map_of target x)"
proof (induction src arbitrary: target)
  case Nil
  show ?case by (simp add: spread_def)
next
  case (Cons p src)
  from Cons.prems have absent: "map_of src (fst p) = None" and d: "distinct (map fst src)"
    by (simp_all add: map_of_eq_None_iff)
  show ?case
  proof (cases "x = fst p")
    case True
    with absent Cons.IH [OF d] show ?thesis
      by (cases p) (simp add: spread_Cons map_of_set_prop)
  next
    case False
    with Cons.IH [OF d] show ?thesis
      by (cases p) (auto simp: spread_Cons map_of_set_prop split: option.splits)
  qed
qed

section \<open>The dispatcher\<close>

lemma fetch_sent:
  assumes "route \<noteq> []"
    and "resolveHeaders c route method (default_arg (JObj []) params) (default_arg JNull b) options
           = Inr resolved"
  shows "fst (RestClient_fetch env c route method params b options) =
           Some \<lparr>url = fullRoute env c route (default_arg (JObj []) params),
                 init = fetchOptions method (merged_headers c options resolved)
                          (default_arg JNull b) options\<rparr>"
  using assms
  by (simp add: RestClient_fetch_def Let_def split: sum.splits)


lemma example_client_constructed: "new_RestClient ''http://api.test'' [] = Inr example_client"
  by (simp add: new_RestClient_def example_client_def updateHeaders_def RestClient_fields_def
      get_prop_def or_else_def default_arg_def spread_def set_prop_def is_array_index_def
      is_digit_def Let_def)

text \<open>
  Claim C1. For a response whose status is outside 200 to 299 the dispatcher should
  decode the body and reject with an \<open>HTTPError\<close> that carries the status, its
  reason phrase and the decoded body. It decodes before it looks at the status, and the
  decoder looks the content type up with \<open>getHeader\<close>, which enumerates
  \<open>Object.keys\<close> of the headers. The \<open>Headers\<close> instance of a response has no
  such key: the lookup is \<open>null\<close>, \<open>toLowerCase\<close> throws, and the 404 with
  \<open>Content-Type: application/json\<close> and body \<open>{"error":"not found"}\<close> rejects
  with a \<open>TypeError\<close>. Only with \<open>options.forceType\<close>, which spares the lookup,
  does the same response reject with the \<open>HTTPError\<close> of the claim.
\<close>

theorem fetch_not_found_rejects_with_TypeError:
  "snd (RestClient_fetch (platform_answering not_found_response) example_client
          ''/missing'' ''GET'' (JObj []) JNull []) = Inl TypeError
   \<and> snd (RestClient_fetch (platform_answering not_found_response) example_client
          ''/missing'' ''GET'' (JObj []) JNull [(''forceType'', JStr ''application/json'')])
       = Inl (Thrown \<lparr>message = ''Not Found'', code = Integer 404,
                        response = JObj [(''error'', JStr ''not found'')]\<rparr>)"
  by code_simp

text \<open>So it is for every response of the Fetch standard, whatever its status, headers
  and payload: without \<open>options.forceType\<close> the decoder fails.\<close>

lemma fetch_Response_undecoded:
  "\<not> truthy forceType \<Longrightarrow>
   resolveResponse (fetch_Response st phrase hs payload) forceType resolveStreams = Inl TypeError"
  by (simp add: resolveResponse_def fetch_Response_def getHeader_def)

text \<open>
  Claim C2. \<open>delete(route, query, options)\<close> should dispatch with no body and with the
  options as the per-call options, as \<open>get\<close> does. It passes the options where
  \<open>_fetch\<close> takes the body: with \<open>options = {headers: {'X-Token': 't'}}\<close> the request
  of \<open>delete\<close> carries the options, serialised, as its body and lacks the header,
  while the request of \<open>get\<close> has no body and carries the header.
\<close>

theorem delete_sends_options_as_body:
  \<open>fst (delete (platform_answering not_found_response) example_client ''/items'' (JObj []) token_options) =
     Some \<lparr>url = ''http://api.test/items'',
           init = [(''method'', Now (JStr ''DELETE'')),
                   (''headers'', Now (JObj [(''Accept'', JStr ''application/json''),
                                            (''Content-Type'', JStr ''application/json'')])),
                   (''body'', Promise (Inr (JStr ''{"headers":{"X-Token":"t"}}'')))]\<rparr>
   \<and> fst (get (platform_answering not_found_response) example_client ''/items'' (JObj []) token_options) =
     Some \<lparr>url = ''http://api.test/items'',
           init = [(''method'', Now (JStr ''GET'')),
                   (''headers'', Now (JObj [(''Accept'', JStr ''application/json''),
                                            (''Content-Type'', JStr ''application/json''),
                                            (''X-Token'', JStr ''t'')])),
                   (''body'', Promise (Inr JNull))]\<rparr>\<close>
  by code_simp

text \<open>
  Claim C7, as the code has it. For every call that reaches the transport and whose
  \<open>options.fetchOptions\<close> has no \<open>headers\<close> property, the headers sent are the
  merged mapping; in the merged mapping a key has the value the \<open>resolveHeaders\<close> hook
  gives it, else the value \<open>options.headers\<close> gives it, else the value of the client's
  default headers. (Each of the three mappings has each key once, as every object has.)
\<close>

theorem headers_merge_order:
  assumes "route \<noteq> []"
    and "resolveHeaders c route method (default_arg (JObj []) params) (default_arg JNull b) options
           = Inr resolved"
    and "''headers'' \<notin> set (map fst (own_props (or_else (get_prop options ''fetchOptions'') (JObj []))))"
    and "distinct (map fst (p_headers c))"
    and "distinct (map fst (own_props (or_else (get_prop options ''headers'') (JObj []))))"
    and "distinct (map fst (own_props resolved))"
  shows "(\<exists>req. fst (RestClient_fetch env c route method params b options) = Some req
            \<and> map_of (init req) ''headers'' = Some (Now (JObj (merged_headers c options resolved))))
     \<and> map_of (merged_headers c options resolved) k =
         (case map_of (own_props resolved) k of
            Some v \<Rightarrow> Some v
          | None \<Rightarrow>
              (case map_of (own_props (or_else (get_prop options ''headers'') (JObj []))) k of
                 Some v \<Rightarrow> Some v
               | None \<Rightarrow> map_of (p_headers c) k))"
proof -
  let ?extra = "map (\<lambda>p. (fst p, Now (snd p)))
      (own_props (or_else (get_prop options ''fetchOptions'') (JObj [])))"
  from assms(3) have "map_of ?extra ''headers'' = None"
    by (simp add: map_of_eq_None_iff image_image)
  then have "map_of (fetchOptions method (merged_headers c options resolved) (default_arg JNull b) options)
      ''headers'' = Some (Now (JObj (merged_headers c options resolved)))"
    by (simp add: fetchOptions_def map_of_spread_other)
  then have sent: "\<exists>req. fst (RestClient_fetch env c route method params b options) = Some req
            \<and> map_of (init req) ''headers'' = Some (Now (JObj (merged_headers c options resolved)))"
    using fetch_sent [OF assms(1,2)] by simp
  have "map_of (merged_headers c options resolved) k =
         (case map_of (own_props resolved) k of
            Some v \<Rightarrow> Some v
          | None \<Rightarrow>
              (case map_of (own_props (or_else (get_prop options ''headers'') (JObj []))) k of
                 Some v \<Rightarrow> Some v
               | None \<Rightarrow> map_of (p_headers c) k))"
    using assms(4,5,6)
    by (simp add: merged_headers_def map_of_spread split: option.splits)
  with sent show ?thesis by blast
qed

theorem headers_merge_order_witness:
  "(\<exists>req. fst (RestClient_fetch (platform_answering not_found_response)
               (example_client\<lparr>resolveHeaders := (\<lambda>r m q b x. Inr (JObj [(''Authorization'', JStr ''k''), (''Accept'', JStr ''text/plain'')]))\<rparr>)
               ''/r'' ''GET'' (JObj []) JNull
               [(''headers'', JObj [(''Accept'', JStr ''text/html''), (''X-A'', JStr ''1'')])]) = Some req
       \<and> map_of (init req) ''headers'' =
           Some (Now (JObj [(''Accept'', JStr ''text/plain''),
                            (''Content-Type'', JStr ''application/json''),
                            (''X-A'', JStr ''1''),
                            (''Authorization'', JStr ''k'')])))"
proof -
  let ?c = "example_client\<lparr>resolveHeaders := (\<lambda>r m q b x. Inr (JObj [(''Authorization'', JStr ''k''), (''Accept'', JStr ''text/plain'')]))\<rparr>"
  let ?o = "[(''headers'', JObj [(''Accept'', JStr ''text/html''), (''X-A'', JStr ''1'')])]"
  let ?h = "JObj [(''Authorization'', JStr ''k''), (''Accept'', JStr ''text/plain'')]"
  have m: "merged_headers ?c ?o ?h =
      [(''Accept'', JStr ''text/plain''), (''Content-Type'', JStr ''application/json''),
       (''X-A'', JStr ''1''), (''Authorization'', JStr ''k'')]"
    by code_simp
  have "(\<exists>req. fst (RestClient_fetch (platform_answering not_found_response) ?c
               ''/r'' ''GET'' (JObj []) JNull ?o) = Some req
       \<and> map_of (init req) ''headers'' = Some (Now (JObj (merged_headers ?c ?o ?h))))
     \<and> map_of (merged_headers ?c ?o ?h) ''Accept'' =
         (case map_of (own_props ?h) ''Accept'' of
            Some v \<Rightarrow> Some v
          | None \<Rightarrow>
              (case map_of (own_props (or_else (get_prop ?o ''headers'') (JObj []))) ''Accept'' of
                 Some v \<Rightarrow> Some v
               | None \<Rightarrow> map_of (p_headers ?c) ''Accept''))"
    by (rule headers_merge_order)
       (simp_all add: example_client_def RestClient_fields_def get_prop_def or_else_def)
  then show ?thesis unfolding m by blast
qed

text \<open>The claim as stated fails where \<open>options.fetchOptions\<close> has a \<open>headers\<close>
  property: it is spread last and replaces the merged mapping as a whole.\<close>

theorem fetchOptions_headers_override:
  "map_option (\<lambda>req. map_of (init req) ''headers'')
     (fst (RestClient_fetch (platform_answering not_found_response) example_client ''/r'' ''GET''
            (JObj []) JNull [(''fetchOptions'', JObj [(''headers'', JObj [])])]))
     = Some (Some (Now (JObj [])))
   \<and> merged_headers example_client [(''fetchOptions'', JObj [(''headers'', JObj [])])] (JObj [])
     = [(''Accept'', JStr ''application/json''), (''Content-Type'', JStr ''application/json'')]"
  by code_simp

text \<open>
  Claim C9. \<open>post(route, body, options)\<close> with \<open>options.query = {x: 1}\<close>, on a route
  that is not empty, with a \<open>resolveHeaders\<close> hook that resolves and a query-string
  encoder that writes \<open>{x: 1}\<close> as \<open>x=1\<close>: the call is the dispatch with method
  \<open>POST\<close>, the query as parameters and the options without their \<open>query\<close> key, and
  the URL of the request is the base URL, the route, \<open>?\<close> and \<open>x=1\<close>.
\<close>

theorem post_query_option:
  assumes "route \<noteq> []"
    and "get_prop options ''query'' = JObj [(''x'', JNum (Integer 1))]"
    and "Qs_stringify env (JObj [(''x'', JNum (Integer 1))]) = ''x=1''"
    and "resolveHeaders c route ''POST'' (JObj [(''x'', JNum (Integer 1))]) (default_arg JNull b)
           (delete_prop options ''query'') = Inr resolved"
  shows "post env c route b options =
           RestClient_fetch env c route ''POST'' (JObj [(''x'', JNum (Integer 1))]) b
             (delete_prop options ''query'')
     \<and> ''query'' \<notin> set (map fst (delete_prop options ''query''))
     \<and> (\<exists>req. fst (post env c route b options) = Some req
            \<and> url req = p_baseUrl c @ route @ ''?x=1'')"
proof -
  have p: "post env c route b options =
           RestClient_fetch env c route ''POST'' (JObj [(''x'', JNum (Integer 1))]) b
             (delete_prop options ''query'')"
    using assms(2) by (simp add: post_def or_else_def)
  have "fullRoute env c route (JObj [(''x'', JNum (Integer 1))]) = p_baseUrl c @ route @ ''?x=1''"
    using assms(3) by (simp add: fullRoute_def default_arg_def Let_def)
  moreover have "fst (RestClient_fetch env c route ''POST'' (JObj [(''x'', JNum (Integer 1))]) b
             (delete_prop options ''query'')) =
       Some \<lparr>url = fullRoute env c route (default_arg (JObj []) (JObj [(''x'', JNum (Integer 1))])),
             init = fetchOptions ''POST'' (merged_headers c (delete_prop options ''query'') resolved)
                      (default_arg JNull b) (delete_prop options ''query'')\<rparr>"
    using assms(1,4) by (intro fetch_sent) (simp_all add: default_arg_def)
  ultimately have "\<exists>req. fst (post env c route b options) = Some req
            \<and> url req = p_baseUrl c @ route @ ''?x=1''"
    using p by (simp add: default_arg_def)
  moreover have "''query'' \<notin> set (map fst (delete_prop options ''query''))"
    by (auto simp: delete_prop_def)
  ultimately show ?thesis using p by blast
qed

theorem post_query_option_witness:
  "post (platform_answering not_found_response) example_client ''/items'' (JObj [(''n'', JNull)])
       [(''query'', JObj [(''x'', JNum (Integer 1))])] =
     RestClient_fetch (platform_answering not_found_response) example_client ''/items'' ''POST''
       (JObj [(''x'', JNum (Integer 1))]) (JObj [(''n'', JNull)]) []
   \<and> (\<exists>req. fst (post (platform_answering not_found_response) example_client ''/items''
                 (JObj [(''n'', JNull)]) [(''query'', JObj [(''x'', JNum (Integer 1))])]) = Some req
          \<and> url req = ''http://api.test/items?x=1'')"
proof -
  let ?env = "platform_answering not_found_response"
  let ?opts = "[(''query'', JObj [(''x'', JNum (Integer 1))])]"
  have r: "''/items'' \<noteq> []" by simp
  have g: "get_prop ?opts ''query'' = JObj [(''x'', JNum (Integer 1))]"
    by (simp add: get_prop_def)
  have q: "Qs_stringify ?env (JObj [(''x'', JNum (Integer 1))]) = ''x=1''"
    by code_simp
  have h: "resolveHeaders example_client ''/items'' ''POST'' (JObj [(''x'', JNum (Integer 1))])
      (default_arg JNull (JObj [(''n'', JNull)])) (delete_prop ?opts ''query'') = Inr (JObj [])"
    by (simp add: example_client_def RestClient_fields_def)
  have d: "delete_prop ?opts ''query'' = []"
    by (simp add: delete_prop_def)
  have b: "p_baseUrl example_client @ ''/items'' @ ''?x=1'' = ''http://api.test/items?x=1''"
    by (simp add: example_client_def RestClient_fields_def)
  from post_query_option [OF r g q h] show ?thesis
    unfolding d b by blast
qed

section \<open>Decimal numerals\<close>
















section \<open>Powers and logarithms\<close>

lemma exp_int_powi: "exp_int b e = b powi e"
  by (simp add: exp_int_def power_int_def inverse_eq_divide power_one_over)

lemma exp_int_pos: "0 < b \<Longrightarrow> 0 < exp_int b e"
  by (simp add: exp_int_powi zero_less_power_int)

lemma exp_int_add: "b \<noteq> 0 \<Longrightarrow> exp_int b (x + y) = exp_int b x * exp_int b y"
  by (simp add: exp_int_powi power_int_add)


lemma exp_int_nat: "0 \<le> e \<Longrightarrow> exp_int b e = b ^ nat e"
  by (simp add: exp_int_def)

lemma exp_int_mono: "1 \<le> b \<Longrightarrow> x \<le> y \<Longrightarrow> exp_int b x \<le> exp_int b y"
  by (simp add: exp_int_powi power_int_increasing)

lemma width_nonneg: "0 \<le> width b a"
proof (induction b a rule: width.induct)
  case (1 b a)
  then show ?case by (simp add: width.simps [of b a])
qed

lemma width_pos: "0 < a \<Longrightarrow> 2 \<le> b \<Longrightarrow> 1 \<le> width b a"
  using width_nonneg [of b "a div b"] by (simp add: width.simps [of b a])

lemma width_bounds:
  "0 < a \<Longrightarrow> 2 \<le> b \<Longrightarrow> b ^ nat (width b a - 1) \<le> a \<and> a < b ^ nat (width b a)"
proof (induction b a rule: width.induct)
  case (1 b a)
  from "1.prems" have w: "width b a = 1 + width b (a div b)"
    by (simp add: width.simps [of b a])
  show ?case
  proof (cases "a div b = 0")
    case True
    then have "width b (a div b) = 0" by (simp add: width.simps [of b 0])
    moreover from True "1.prems" have "a < b"
      by (simp add: div_pos_pos_trivial zdiv_eq_0_iff)
    ultimately show ?thesis using w "1.prems" by simp
  next
    case False
    with "1.prems" have pos: "0 < a div b"
      by (metis div_int_pos_iff less_le not_less order.strict_trans2 zero_less_numeral)
    from "1.prems" have "\<not> (a \<le> 0 \<or> b < 2)" by simp
    from "1.IH" [OF this pos "1.prems"(2)]
    have lo: "b ^ nat (width b (a div b) - 1) \<le> a div b"
      and hi: "a div b < b ^ nat (width b (a div b))" by simp_all
    have w1: "1 \<le> width b (a div b)" using pos "1.prems"(2) by (rule width_pos)
    then have n: "nat (width b (a div b)) = Suc (nat (width b (a div b) - 1))" by simp
    have "b ^ nat (width b (a div b)) = b * b ^ nat (width b (a div b) - 1)"
      by (subst n) simp
    also have "\<dots> \<le> b * (a div b)"
      using lo "1.prems"(2) by (intro mult_left_mono) simp_all
    also have "\<dots> \<le> a"
    proof -
      have "b * (a div b) + a mod b = a" by simp
      moreover have "0 \<le> a mod b" using "1.prems"(2) by simp
      ultimately show ?thesis by linarith
    qed
    finally have l: "b ^ nat (width b a - 1) \<le> a" using w by simp
    have "a = b * (a div b) + a mod b" by simp
    also have "\<dots> < b * (a div b) + b"
      using "1.prems"(2) by (intro add_strict_left_mono pos_mod_bound) simp
    also have "\<dots> = b * (a div b + 1)" by (simp add: algebra_simps)
    also have "\<dots> \<le> b * b ^ nat (width b (a div b))"
      using hi "1.prems"(2) by (intro mult_left_mono) simp_all
    also have "\<dots> = b ^ nat (width b a)"
      using w w1 by (simp add: nat_add_distrib)
    finally have "a < b ^ nat (width b a)" .
    with l show ?thesis by blast
  qed
qed

lemma floor_log_bounds:
  assumes "0 < q" and "2 \<le> b"
  shows "exp_int (of_int b) (floor_log b q) \<le> q"
    and "q < exp_int (of_int b) (floor_log b q + 1)"
proof -
  have goal: "exp_int (of_int b) (floor_log b q) \<le> q \<and> q < exp_int (of_int b) (floor_log b q + 1)"
  proof (cases "1 \<le> q")
    case True
    then have f: "0 < \<lfloor>q\<rfloor>" by simp
    let ?w = "width b \<lfloor>q\<rfloor>"
    from width_bounds [OF f assms(2)] have lo: "b ^ nat (?w - 1) \<le> \<lfloor>q\<rfloor>"
      and hi: "\<lfloor>q\<rfloor> < b ^ nat ?w" by simp_all
    have w1: "1 \<le> ?w" using f assms(2) by (rule width_pos)
    have "exp_int (of_int b) (?w - 1) = of_int (b ^ nat (?w - 1))"
      using w1 by (simp add: exp_int_nat)
    also have "\<dots> \<le> of_int \<lfloor>q\<rfloor>" using lo by (simp only: of_int_le_iff)
    also have "\<dots> \<le> q" by simp
    finally have l: "exp_int (of_int b) (?w - 1) \<le> q" .
    have "q < of_int (b ^ nat ?w)" using hi by (simp only: floor_less_iff)
    also have "\<dots> = exp_int (of_int b) ?w" using w1 by (simp add: exp_int_nat)
    finally have "q < exp_int (of_int b) (?w - 1 + 1)" by simp
    with l True show ?thesis by (simp add: floor_log_def)
  next
    case False
    with assms(1) have r: "1 < 1 / q" by simp
    let ?c = "\<lceil>1 / q\<rceil>"
    from r have c: "0 < ?c - 1" by simp
    let ?w = "width b (?c - 1)"
    from width_bounds [OF c assms(2)] have lo: "b ^ nat (?w - 1) \<le> ?c - 1"
      and hi: "?c - 1 < b ^ nat ?w" by simp_all
    have w1: "1 \<le> ?w" using c assms(2) by (rule width_pos)
    have bpos: "0 < (of_int b :: rat)" using assms(2) by simp
    have "1 / q \<le> of_int ?c" by simp
    also have "\<dots> \<le> of_int (b ^ nat ?w)" using hi by (simp only: of_int_le_iff)
    finally have "1 / q \<le> (of_int b) ^ nat ?w" by simp
    then have "1 / (of_int b) ^ nat ?w \<le> q"
      using assms(1) bpos by (simp add: field_simps)
    then have l: "exp_int (of_int b) (- ?w) \<le> q"
      using w1 by (simp add: exp_int_def)
    have "of_int (b ^ nat (?w - 1)) \<le> (of_int (?c - 1) :: rat)"
      using lo by (simp only: of_int_le_iff)
    also have "\<dots> < 1 / q" by (simp only: less_ceiling_iff [symmetric])
    finally have "(of_int b) ^ nat (?w - 1) < 1 / q" by simp
    then have "q < 1 / (of_int b) ^ nat (?w - 1)"
      using assms(1) bpos by (simp add: field_simps)
    moreover have "exp_int (of_int b) (- ?w + 1) = 1 / (of_int b) ^ nat (?w - 1)"
    proof (cases "?w = 1")
      case True
      then show ?thesis by (simp add: exp_int_def)
    next
      case False
      with w1 have "- ?w + 1 < 0" by simp
      then show ?thesis by (simp add: exp_int_def)
    qed
    ultimately have "q < exp_int (of_int b) (- ?w + 1)" by simp
    with l False show ?thesis by (simp add: floor_log_def)
  qed
  from goal show "exp_int (of_int b) (floor_log b q) \<le> q" by blast
  from goal show "q < exp_int (of_int b) (floor_log b q + 1)" by blast
qed


section \<open>The numbers binary64 holds\<close>







text \<open>And it holds nothing else.\<close>

lemma is_double_binary64:
  assumes "is_double q"
  shows "\<exists>m x. \<bar>m\<bar> < 2 ^ 53 \<and> - 1074 \<le> x \<and> x \<le> 971 \<and> q = of_int m * exp_int 2 x"
proof (cases "q = 0")
  case True
  have "\<bar>0::int\<bar> < 2 ^ 53 \<and> - 1074 \<le> (0::int) \<and> (0::int) \<le> 971 \<and> q = of_int 0 * exp_int 2 0"
    using True by simp
  then show ?thesis by blast
next
  case False
  define d where "d = \<bar>q\<bar>"
  from False assms have pos: "0 < d" and same: "to_double d = Some d"
    by (simp_all add: is_double_def d_def)
  define e where "e = max (floor_log 2 d) (- 1022)"
  define u where "u = exp_int 2 (e - 52)"
  define z where "z = round_even (d / u)"
  have upos: "0 < u" unfolding u_def by (simp add: exp_int_pos)
  from same have zu: "of_int z * u = d" and small: "floor_log 2 d < 1024"
    unfolding to_double_def Let_def e_def [symmetric] u_def [symmetric] z_def [symmetric]
    by (auto split: if_splits)
  from small have x: "- 1074 \<le> e - 52" "e - 52 \<le> 971" unfolding e_def by simp_all
  have "d < exp_int (of_int 2) (floor_log 2 d + 1)"
    using pos by (intro floor_log_bounds(2)) simp_all
  also have "\<dots> \<le> exp_int 2 (e + 1)"
    unfolding e_def by (simp add: exp_int_mono)
  also have "\<dots> = exp_int 2 53 * u"
    unfolding u_def using exp_int_add [of 2 53 "e - 52"] by (simp add: add.commute)
  finally have "of_int z * u < 2 ^ 53 * u" unfolding zu by (simp add: exp_int_def)
  with upos have "(of_int z :: rat) < of_int (2 ^ 53)" by simp
  then have zhi: "z < 2 ^ 53" by (simp only: of_int_less_iff)
  from zu pos upos have "(0::rat) < of_int z"
    by (metis mult_less_0_iff not_less_iff_gr_or_eq zero_less_mult_pos2)
  then have zlo: "0 < z" by simp
  have "q = of_int (if q < 0 then - z else z) * exp_int 2 (e - 52)"
    using zu unfolding d_def u_def by (simp add: abs_if split: if_splits)
  moreover have "\<bar>if q < 0 then - z else z\<bar> < 2 ^ 53" using zlo zhi by simp
  ultimately show ?thesis using x by blast
qed

section \<open>The digits of a number\<close>









section \<open>Reading a numeral back\<close>





















section \<open>The reader stays within its bound\<close>

text \<open>Every successful step of the reader consumes input, and a bound of more than
  twice the length of the text is never exhausted.\<close>

lemma skip_ws_length: "length (skip_ws s) \<le> length s"
  unfolding skip_ws_def by (rule length_dropWhile_le)

lemma skip_ws_Cons_length: "skip_ws s = c # cs \<Longrightarrow> length cs < length s"
  using skip_ws_length [of s] by simp

lemma cons_char_Inr: "cons_char c res = Inr (s, r) \<Longrightarrow> \<exists>s'. res = Inr (s', r)"
  by (auto simp: cons_char_def split: sum.splits)

lemma cons_char_Inl: "cons_char c res = Inl e \<Longrightarrow> res = Inl e"
  by (auto simp: cons_char_def split: sum.splits)

lemma parse_chars_shorter: "parse_chars cs = Inr (k, r) \<Longrightarrow> length r < length cs"
proof (induction cs arbitrary: k rule: parse_chars.induct)
  case 1
  then show ?case by simp
next
  case (2 c cs)
  show ?case
  proof (cases "c = CHR 0x22")
    case True
    with "2.prems" show ?thesis by simp
  next
    case quote: False
    show ?thesis
    proof (cases "c = CHR 0x5C")
      case False
      with quote "2.prems" obtain k' where "parse_chars cs = Inr (k', r)"
        by (auto split: if_splits dest: cons_char_Inr)
      with "2.IH"(3) [OF quote False] quote False "2.prems" show ?thesis
        by (fastforce split: if_splits)
    next
      case True
      then obtain e t where cs: "cs = e # t"
        using quote "2.prems" by (cases cs) auto
      show ?thesis
      proof (cases "e = CHR ''u''")
        case u: True
        with quote True cs "2.prems" obtain ch k' where
          "\<not> length t < 4" "unescape_u (take 4 t) = Inr ch" "parse_chars (drop 4 t) = Inr (k', r)"
          by (auto split: if_splits sum.splits dest: cons_char_Inr)
        with "2.IH"(1) [OF quote True cs u] cs show ?thesis by fastforce
      next
        case nou: False
        with quote True cs "2.prems" obtain ch k' where
          "unescape e = Some ch" "parse_chars t = Inr (k', r)"
          by (auto split: if_splits option.splits dest: cons_char_Inr)
        with "2.IH"(2) [OF quote True cs nou] cs show ?thesis by fastforce
      qed
    qed
  qed
qed


lemma unescape_u_fuel: "unescape_u hs \<noteq> Inl OutOfFuel"
  by (auto simp: unescape_u_def Let_def split: list.splits option.splits)

lemma parse_chars_fuel: "parse_chars cs \<noteq> Inl OutOfFuel"
proof (induction cs rule: parse_chars.induct)
  case 1
  show ?case by simp
next
  case (2 c cs)
  show ?case
  proof
    assume a: "parse_chars (c # cs) = Inl OutOfFuel"
    show False
    proof (cases "c = CHR 0x22")
      case True
      with a show False by simp
    next
      case quote: False
      show False
      proof (cases "c = CHR 0x5C")
        case False
        with quote a have "parse_chars cs = Inl OutOfFuel"
          by (auto split: if_splits dest: cons_char_Inl)
        with "2.IH"(3) [OF quote False] quote False a show False
          by (auto split: if_splits)
      next
        case True
        then obtain e t where cs: "cs = e # t"
          using quote a by (cases cs) auto
        show False
        proof (cases "e = CHR ''u''")
          case u: True
          with quote True cs a have long: "\<not> length t < 4"
            by (auto split: if_splits)
          with u quote True cs a unescape_u_fuel [of "take 4 t"] obtain ch where
            ch: "unescape_u (take 4 t) = Inr ch" and "parse_chars (drop 4 t) = Inl OutOfFuel"
            by (auto split: sum.splits dest: cons_char_Inl)
          with "2.IH"(1) [OF quote True cs u long ch] show False by simp
        next
          case nou: False
          with quote True cs a obtain ch where
            ch: "unescape e = Some ch" and "parse_chars t = Inl OutOfFuel"
            by (auto split: option.splits dest: cons_char_Inl)
          with "2.IH"(2) [OF quote True cs nou ch] show False by simp
        qed
      qed
    qed
  qed
qed

lemma int_digits_length: "length (int_digits s) \<le> length s"
  by (cases s) (auto simp: int_digits_def intro: le_trans [OF length_takeWhile_le])

lemma read_fraction_length: "read_fraction t = Some (fp, r) \<Longrightarrow> length r \<le> length t"
  by (auto simp: read_fraction_def Let_def split: if_splits)

lemma read_exponent_length: "read_exponent t = Some (e, r) \<Longrightarrow> length r \<le> length t"
  by (auto simp: read_exponent_def Let_def split: if_splits)

lemma parse_number_shorter:
  assumes "parse_number s = Inr (v, r)"
  shows "length r < length s"
proof -
  let ?s1 = "if s \<noteq> [] \<and> hd s = CHR ''-'' then tl s else s"
  let ?ip = "int_digits ?s1"
  from assms have ne: "?ip \<noteq> []"
    by (auto simp: parse_number_def Let_def split: if_splits)
  with assms obtain fp r2 where fr: "read_fraction (drop (length ?ip) ?s1) = Some (fp, r2)"
    by (cases "read_fraction (drop (length ?ip) ?s1)") (auto simp: parse_number_def Let_def)
  with assms ne obtain e where ex: "read_exponent r2 = Some (e, r)"
    by (cases "read_exponent r2") (auto simp: parse_number_def Let_def)
  have "length ?ip \<le> length ?s1" by (rule int_digits_length)
  with ne have "length (drop (length ?ip) ?s1) < length ?s1"
    by (cases ?ip) auto
  with read_fraction_length [OF fr] read_exponent_length [OF ex]
  have "length r < length ?s1" by simp
  moreover have "length ?s1 \<le> length s" by simp
  ultimately show ?thesis by simp
qed

lemma parse_number_fuel: "parse_number s \<noteq> Inl OutOfFuel"
  by (simp add: parse_number_def Let_def split: option.splits)

lemma skip_ws_tl_length: "skip_ws cs \<noteq> [] \<Longrightarrow> length (tl (skip_ws cs)) < length cs"
  using skip_ws_length [of cs] by (cases "skip_ws cs") auto

lemma reader_shorter:
  "(\<forall>s v r. parse_value n s = Inr (v, r) \<longrightarrow> length r < length s)
   \<and> (\<forall>s xs r. parse_elements n s = Inr (xs, r) \<longrightarrow> length r < length s)
   \<and> (\<forall>s kvs r. parse_members n s = Inr (kvs, r) \<longrightarrow> length r < length s)"
proof (induction n)
  case 0
  show ?case by simp
next
  case (Suc n)
  then have pv: "\<And>s v r. parse_value n s = Inr (v, r) \<Longrightarrow> length r < length s"
    and pe: "\<And>s xs r. parse_elements n s = Inr (xs, r) \<Longrightarrow> length r < length s"
    and pm: "\<And>s kvs r. parse_members n s = Inr (kvs, r) \<Longrightarrow> length r < length s"
    by blast+
  have v: "length r < length s" if a: "parse_value (Suc n) s = Inr (v, r)" for s v r
  proof -
    from a obtain c cs where sk: "skip_ws s = c # cs"
      by (cases "skip_ws s") auto
    then have cs: "length cs < length s" by (rule skip_ws_Cons_length)
    consider (arr) "c = CHR ''[''" | (ob) "c \<noteq> CHR ''[''" "c = CHR ''{''"
      | (str) "c \<noteq> CHR ''[''" "c \<noteq> CHR ''{''" "c = CHR 0x22"
      | (other) "c \<noteq> CHR ''[''" "c \<noteq> CHR ''{''" "c \<noteq> CHR 0x22"
      by blast
    then show ?thesis
    proof cases
      case arr
      from a have a1: "(if skip_ws cs \<noteq> [] \<and> hd (skip_ws cs) = CHR '']''
             then Inr (JArr [], tl (skip_ws cs))
             else
               (case parse_elements n cs of
                  Inl e \<Rightarrow> Inl e
                | Inr (xs, r) \<Rightarrow> Inr (JArr xs, r))) = Inr (v, r)"
        by (simp add: sk arr)
      show ?thesis
      proof (cases "skip_ws cs \<noteq> [] \<and> hd (skip_ws cs) = CHR '']''")
        case True
        with a1 have "r = tl (skip_ws cs)" by simp
        with True skip_ws_tl_length [of cs] cs show ?thesis by simp
      next
        case False
        with a1 obtain xs where "parse_elements n cs = Inr (xs, r)"
          by (cases "parse_elements n cs") auto
        from pe [OF this] cs show ?thesis by simp
      qed
    next
      case ob
      from a have a1: "(if skip_ws cs \<noteq> [] \<and> hd (skip_ws cs) = CHR ''}''
             then Inr (JObj [], tl (skip_ws cs))
             else
               (case parse_members n cs of
                  Inl e \<Rightarrow> Inl e
                | Inr (kvs, r) \<Rightarrow> Inr (JObj (spread [] kvs), r))) = Inr (v, r)"
        by (simp add: sk ob)
      show ?thesis
      proof (cases "skip_ws cs \<noteq> [] \<and> hd (skip_ws cs) = CHR ''}''")
        case True
        with a1 have "r = tl (skip_ws cs)" by simp
        with True skip_ws_tl_length [of cs] cs show ?thesis by simp
      next
        case False
        with a1 obtain kvs where "parse_members n cs = Inr (kvs, r)"
          by (cases "parse_members n cs") auto
        from pm [OF this] cs show ?thesis by simp
      qed
    next
      case str
      from a have "(case parse_chars cs of
               Inl e \<Rightarrow> Inl e
             | Inr (str, r) \<Rightarrow> Inr (JStr str, r)) = Inr (v, r)"
        by (simp add: sk str)
      then obtain k where "parse_chars cs = Inr (k, r)"
        by (cases "parse_chars cs") auto
      from parse_chars_shorter [OF this] cs show ?thesis by simp
    next
      case other
      from a have a1: "(if prefix ''null'' (c # cs) then Inr (JNull, drop 4 (c # cs))
          else if prefix ''true'' (c # cs) then Inr (JBool True, drop 4 (c # cs))
          else if prefix ''false'' (c # cs) then Inr (JBool False, drop 5 (c # cs))
          else if c = CHR ''-'' \<or> is_digit c then parse_number (c # cs)
          else Inl SyntaxError) = Inr (v, r)"
        unfolding parse_value.simps sk list.case using other by simp
      have "length r < length (c # cs)"
      proof (cases "prefix ''null'' (c # cs)")
        case True
        with a1 have "r = drop 4 (c # cs)"
          by (simp only: if_True sum.inject prod.inject)
        with prefix_length_le [OF True] show ?thesis by simp
      next
        case n: False
        show ?thesis
        proof (cases "prefix ''true'' (c # cs)")
          case True
          with a1 n have "r = drop 4 (c # cs)"
            by (simp only: if_True if_False sum.inject prod.inject)
          with prefix_length_le [OF True] show ?thesis by simp
        next
          case t: False
          show ?thesis
          proof (cases "prefix ''false'' (c # cs)")
            case True
            with a1 n t have "r = drop 5 (c # cs)"
              by (simp only: if_True if_False sum.inject prod.inject)
            with prefix_length_le [OF True] show ?thesis by simp
          next
            case False
            with a1 n t have "(if c = CHR ''-'' \<or> is_digit c then parse_number (c # cs)
                else Inl SyntaxError) = Inr (v, r)"
              by (simp only: if_False)
            then have "parse_number (c # cs) = Inr (v, r)"
              by (cases "c = CHR ''-'' \<or> is_digit c") (simp_all only: if_True if_False sum.distinct)
            then show ?thesis by (rule parse_number_shorter)
          qed
        qed
      qed
      with cs show ?thesis by simp
    qed
  qed
  have e: "length r < length s" if a: "parse_elements (Suc n) s = Inr (xs, r)" for s xs r
  proof -
    from a obtain x r1 where x: "parse_value n s = Inr (x, r1)"
      by (auto split: sum.splits)
    from a x obtain c r2 where sk: "skip_ws r1 = c # r2"
      by (cases "skip_ws r1") auto
    from pv [OF x] skip_ws_Cons_length [OF sk] have r2: "length r2 < length s" by simp
    show ?thesis
    proof (cases "c = CHR '',''")
      case True
      with a x sk obtain ys where "parse_elements n r2 = Inr (ys, r)"
        by (auto split: sum.splits)
      from pe [OF this] r2 show ?thesis by simp
    next
      case False
      with a x sk have "r = r2" by (auto split: if_splits)
      with r2 show ?thesis by simp
    qed
  qed
  have m: "length r < length s" if a: "parse_members (Suc n) s = Inr (kvs, r)" for s kvs r
  proof -
    from a obtain q cs where sk: "skip_ws s = q # cs"
      by (cases "skip_ws s") auto
    from a have a1: "(case parse_chars cs of
               Inl e \<Rightarrow> Inl e
             | Inr (k, r) \<Rightarrow>
                 (case skip_ws r of
                    [] \<Rightarrow> Inl SyntaxError
                  | colon # r1 \<Rightarrow>
                      if colon \<noteq> CHR '':'' then Inl SyntaxError
                      else
                        (case parse_value n r1 of
                           Inl e \<Rightarrow> Inl e
                         | Inr (v, r2) \<Rightarrow>
                             (case skip_ws r2 of
                                [] \<Rightarrow> Inl SyntaxError
                              | c # r3 \<Rightarrow>
                                  if c = CHR '','' then
                                    (case parse_members n r3 of
                                       Inl e \<Rightarrow> Inl e
                                     | Inr (kvs, r4) \<Rightarrow> Inr ((k, v) # kvs, r4))
                                  else if c = CHR ''}'' then Inr ([(k, v)], r3)
                                  else Inl SyntaxError)))) = Inr (kvs, r)"
      by (simp add: sk split: if_splits)
    then obtain k r0 where k: "parse_chars cs = Inr (k, r0)"
      by (cases "parse_chars cs") auto
    from a1 obtain colon r1 where sk1: "skip_ws r0 = colon # r1"
      by (cases "skip_ws r0") (auto simp: k)
    from a1 have a2: "(case parse_value n r1 of
                           Inl e \<Rightarrow> Inl e
                         | Inr (v, r2) \<Rightarrow>
                             (case skip_ws r2 of
                                [] \<Rightarrow> Inl SyntaxError
                              | c # r3 \<Rightarrow>
                                  if c = CHR '','' then
                                    (case parse_members n r3 of
                                       Inl e \<Rightarrow> Inl e
                                     | Inr (kvs, r4) \<Rightarrow> Inr ((k, v) # kvs, r4))
                                  else if c = CHR ''}'' then Inr ([(k, v)], r3)
                                  else Inl SyntaxError)) = Inr (kvs, r)"
      by (simp add: k sk1 split: if_splits)
    then obtain v r2 where v: "parse_value n r1 = Inr (v, r2)"
      by (cases "parse_value n r1") auto
    from a2 obtain c r3 where sk2: "skip_ws r2 = c # r3"
      by (cases "skip_ws r2") (auto simp: v)
    have r3: "length r3 < length s"
      using skip_ws_Cons_length [OF sk] parse_chars_shorter [OF k] skip_ws_Cons_length [OF sk1]
        pv [OF v] skip_ws_Cons_length [OF sk2] by simp
    from a2 have a3: "(if c = CHR '','' then
                                    (case parse_members n r3 of
                                       Inl e \<Rightarrow> Inl e
                                     | Inr (kvs, r4) \<Rightarrow> Inr ((k, v) # kvs, r4))
                                  else if c = CHR ''}'' then Inr ([(k, v)], r3)
                                  else Inl SyntaxError) = Inr (kvs, r)"
      by (simp add: v sk2)
    show ?thesis
    proof (cases "c = CHR '',''")
      case True
      with a3 obtain ps where "parse_members n r3 = Inr (ps, r)"
        by (cases "parse_members n r3") auto
      from pm [OF this] r3 show ?thesis by simp
    next
      case False
      with a3 have "r = r3" by (auto split: if_splits)
      with r3 show ?thesis by simp
    qed
  qed
  from v e m show ?case by blast
qed

lemma reader_shorter_value: "parse_value n s = Inr (v, r) \<Longrightarrow> length r < length s"
  using reader_shorter [of n] by blast

lemma reader_fuel:
  "(\<forall>s. 2 * length s < n \<longrightarrow> parse_value n s \<noteq> Inl OutOfFuel)
   \<and> (\<forall>s. 2 * length s + 1 < n \<longrightarrow> parse_elements n s \<noteq> Inl OutOfFuel)
   \<and> (\<forall>s. 2 * length s + 1 < n \<longrightarrow> parse_members n s \<noteq> Inl OutOfFuel)"
proof (induction n)
  case 0
  show ?case by simp
next
  case (Suc n)
  then have pv: "\<And>s. 2 * length s < n \<Longrightarrow> parse_value n s \<noteq> Inl OutOfFuel"
    and pe: "\<And>s. 2 * length s + 1 < n \<Longrightarrow> parse_elements n s \<noteq> Inl OutOfFuel"
    and pm: "\<And>s. 2 * length s + 1 < n \<Longrightarrow> parse_members n s \<noteq> Inl OutOfFuel"
    by blast+
  have v: "parse_value (Suc n) s \<noteq> Inl OutOfFuel" if len: "2 * length s < Suc n" for s
  proof
    assume a: "parse_value (Suc n) s = Inl OutOfFuel"
    from a obtain c cs where sk: "skip_ws s = c # cs"
      by (cases "skip_ws s") auto
    then have cs: "length cs < length s" by (rule skip_ws_Cons_length)
    with len have fuel: "2 * length cs + 1 < n" by simp
    consider (arr) "c = CHR ''[''" | (ob) "c \<noteq> CHR ''[''" "c = CHR ''{''"
      | (str) "c \<noteq> CHR ''[''" "c \<noteq> CHR ''{''" "c = CHR 0x22"
      | (other) "c \<noteq> CHR ''[''" "c \<noteq> CHR ''{''" "c \<noteq> CHR 0x22"
      by blast
    then show False
    proof cases
      case arr
      from a have "(if skip_ws cs \<noteq> [] \<and> hd (skip_ws cs) = CHR '']''
             then Inr (JArr [], tl (skip_ws cs))
             else
               (case parse_elements n cs of
                  Inl e \<Rightarrow> Inl e
                | Inr (xs, r) \<Rightarrow> Inr (JArr xs, r))) = Inl OutOfFuel"
        by (simp add: sk arr)
      then have "parse_elements n cs = Inl OutOfFuel"
        by (cases "parse_elements n cs") (auto split: if_splits)
      with pe [OF fuel] show False by simp
    next
      case ob
      from a have "(if skip_ws cs \<noteq> [] \<and> hd (skip_ws cs) = CHR ''}''
             then Inr (JObj [], tl (skip_ws cs))
             else
               (case parse_members n cs of
                  Inl e \<Rightarrow> Inl e
                | Inr (kvs, r) \<Rightarrow> Inr (JObj (spread [] kvs), r))) = Inl OutOfFuel"
        by (simp add: sk ob)
      then have "parse_members n cs = Inl OutOfFuel"
        by (cases "parse_members n cs") (auto split: if_splits)
      with pm [OF fuel] show False by simp
    next
      case str
      from a have "(case parse_chars cs of
               Inl e \<Rightarrow> Inl e
             | Inr (str, r) \<Rightarrow> Inr (JStr str, r)) = Inl OutOfFuel"
        by (simp add: sk str)
      then have "parse_chars cs = Inl OutOfFuel"
        by (cases "parse_chars cs") auto
      with parse_chars_fuel show False by blast
    next
      case other
      from a have a1: "(if prefix ''null'' (c # cs) then Inr (JNull, drop 4 (c # cs))
          else if prefix ''true'' (c # cs) then Inr (JBool True, drop 4 (c # cs))
          else if prefix ''false'' (c # cs) then Inr (JBool False, drop 5 (c # cs))
          else if c = CHR ''-'' \<or> is_digit c then parse_number (c # cs)
          else Inl SyntaxError) = Inl OutOfFuel"
        unfolding parse_value.simps sk list.case using other by simp
      then have "parse_number (c # cs) = Inl OutOfFuel"
        by (simp only: split: if_splits) simp_all
      with parse_number_fuel show False by blast
    qed
  qed
  have e: "parse_elements (Suc n) s \<noteq> Inl OutOfFuel" if len: "2 * length s + 1 < Suc n" for s
  proof
    assume a: "parse_elements (Suc n) s = Inl OutOfFuel"
    from len have "2 * length s < n" by simp
    from pv [OF this] a obtain x r1 where x: "parse_value n s = Inr (x, r1)"
      by (cases "parse_value n s") auto
    from a have a1: "(case skip_ws r1 of
             [] \<Rightarrow> Inl SyntaxError
           | c # r' \<Rightarrow>
               if c = CHR '','' then
                 (case parse_elements n r' of
                    Inl e \<Rightarrow> Inl e
                  | Inr (xs, r'') \<Rightarrow> Inr (x # xs, r''))
               else if c = CHR '']'' then Inr ([x], r')
               else Inl SyntaxError) = Inl OutOfFuel"
      by (simp add: x)
    then obtain c r2 where sk: "skip_ws r1 = c # r2"
      by (cases "skip_ws r1") auto
    from reader_shorter_value [OF x] skip_ws_Cons_length [OF sk] len
    have fuel: "2 * length r2 + 1 < n" by simp
    from a1 have "parse_elements n r2 = Inl OutOfFuel"
      by (cases "parse_elements n r2") (auto simp: sk split: if_splits)
    with pe [OF fuel] show False by simp
  qed
  have m: "parse_members (Suc n) s \<noteq> Inl OutOfFuel" if len: "2 * length s + 1 < Suc n" for s
  proof
    assume a: "parse_members (Suc n) s = Inl OutOfFuel"
    from a obtain q cs where sk: "skip_ws s = q # cs"
      by (cases "skip_ws s") auto
    from a have a1: "(case parse_chars cs of
               Inl e \<Rightarrow> Inl e
             | Inr (k, r) \<Rightarrow>
                 (case skip_ws r of
                    [] \<Rightarrow> Inl SyntaxError
                  | colon # r1 \<Rightarrow>
                      if colon \<noteq> CHR '':'' then Inl SyntaxError
                      else
                        (case parse_value n r1 of
                           Inl e \<Rightarrow> Inl e
                         | Inr (v, r2) \<Rightarrow>
                             (case skip_ws r2 of
                                [] \<Rightarrow> Inl SyntaxError
                              | c # r3 \<Rightarrow>
                                  if c = CHR '','' then
                                    (case parse_members n r3 of
                                       Inl e \<Rightarrow> Inl e
                                     | Inr (kvs, r4) \<Rightarrow> Inr ((k, v) # kvs, r4))
                                  else if c = CHR ''}'' then Inr ([(k, v)], r3)
                                  else Inl SyntaxError)))) = Inl OutOfFuel"
      by (simp add: sk split: if_splits)
    with parse_chars_fuel [of cs] obtain k r0 where k: "parse_chars cs = Inr (k, r0)"
      by (cases "parse_chars cs") auto
    from a1 obtain colon r1 where sk1: "skip_ws r0 = colon # r1"
      by (cases "skip_ws r0") (auto simp: k)
    from a1 have a2: "(case parse_value n r1 of
                           Inl e \<Rightarrow> Inl e
                         | Inr (v, r2) \<Rightarrow>
                             (case skip_ws r2 of
                                [] \<Rightarrow> Inl SyntaxError
                              | c # r3 \<Rightarrow>
                                  if c = CHR '','' then
                                    (case parse_members n r3 of
                                       Inl e \<Rightarrow> Inl e
                                     | Inr (kvs, r4) \<Rightarrow> Inr ((k, v) # kvs, r4))
                                  else if c = CHR ''}'' then Inr ([(k, v)], r3)
                                  else Inl SyntaxError)) = Inl OutOfFuel"
      by (simp add: k sk1 split: if_splits)
    have r1: "length r1 < length s"
      using skip_ws_Cons_length [OF sk] parse_chars_shorter [OF k] skip_ws_Cons_length [OF sk1]
      by simp
    with len have "2 * length r1 < n" by simp
    from pv [OF this] a2 obtain v r2 where v: "parse_value n r1 = Inr (v, r2)"
      by (cases "parse_value n r1") auto
    from a2 obtain c r3 where sk2: "skip_ws r2 = c # r3"
      by (cases "skip_ws r2") (auto simp: v)
    from r1 reader_shorter_value [OF v] skip_ws_Cons_length [OF sk2] len
    have fuel: "2 * length r3 + 1 < n" by simp
    from a2 have "parse_members n r3 = Inl OutOfFuel"
      by (cases "parse_members n r3") (auto simp: v sk2 split: if_splits)
    with pm [OF fuel] show False by simp
  qed
  from v e m show ?case by blast
qed

text \<open>\<open>JSON.parse\<close> never stops for want of fuel: the bound in its definition is
  a device of the model only.\<close>

lemma JSON_parse_total: "JSON_parse text \<noteq> Inl OutOfFuel"
proof -
  have "parse_value (2 * length text + 2) text \<noteq> Inl OutOfFuel"
    using reader_fuel [of "2 * length text + 2"] by simp
  then show ?thesis
    by (auto simp: JSON_parse_def split: sum.splits)
qed

section \<open>Serialising and parsing back\<close>

subsection \<open>Strings\<close>






subsection \<open>The order of keys\<close>






subsection \<open>Single steps of the reader\<close>














subsection \<open>The reader inverts the writer\<close>








declare parse_value.simps [simp del]








text \<open>So it is for the negative zero, which is written \<open>0\<close>: \<open>{a: -0}\<close> comes
  back as \<open>{a: 0}\<close>.\<close>

lemma parseBody_json_loses_negative_zero:
  \<open>parseBody (JObj [(''a'', JNum NegZero)]) [(''Content-Type'', JStr ''application/json'')]
     = Inr (JStr ''{"a":0}'')
   \<and> JSON_parse ''{"a":0}'' = Inr (JObj [(''a'', JNum (Integer 0))])
   \<and> JObj [(''a'', JNum (Integer 0))] \<noteq> JObj [(''a'', JNum NegZero)]\<close>
  by code_simp

end
